theory Spec2Isabelle
  imports Main "HOL-Library.Finite_Map" "HOL-Library.List_Lexorder" "HOL-Library.Char_ord"
begin

section \<open>Values of the configuration language (package cty)\<close>

text \<open>
  The provider reads evaluated attribute values as \<^verbatim>\<open>cty.Value\<close>. Only the operations the
  provider calls are modelled: comparison with \<^verbatim>\<open>cty.NilVal\<close>, \<^verbatim>\<open>IsNull\<close>, \<^verbatim>\<open>Type\<close>,
  \<^verbatim>\<open>AsString\<close> and \<^verbatim>\<open>ElementIterator\<close>. The last two panic outside their domain, and a
  panic is a value of the model. Numbers are carried as integers: the provider never
  computes with them, it only hands them to the JSON encoder. The attribute list of an
  object (or map) value is the sequence in which the element iterator yields it.
\<close>

datatype cty_type = NilType | cty_String | cty_Number | cty_Bool | cty_DynamicPseudoType
  | cty_List | cty_Object

datatype cty_value =
    NilVal
  | NullVal cty_type
  | UnknownVal cty_type
  | StringVal string
  | NumberVal int
  | BoolVal bool
  | ListVal "cty_value list"
  | ObjectVal "(string \<times> cty_value) list"

text \<open>Every way the conversion can panic at run time.\<close>

datatype panic =
    NotAString            \<comment> \<open>\<^verbatim>\<open>AsString\<close> on a value that is not a known, non-null string\<close>
  | NotIterable           \<comment> \<open>\<^verbatim>\<open>ElementIterator\<close> on a value without elements\<close>
  | NilMapAssignment      \<comment> \<open>assignment to an entry of a nil map\<close>
  | InterfaceConversion   \<comment> \<open>failed type assertion \<^verbatim>\<open>v.([]interface{})\<close>\<close>
  | IndexOutOfRange       \<comment> \<open>slice index out of range\<close>

fun cty_Type :: "cty_value \<Rightarrow> cty_type" where
  "cty_Type NilVal = NilType"
| "cty_Type (NullVal t) = t"
| "cty_Type (UnknownVal t) = t"
| "cty_Type (StringVal s) = cty_String"
| "cty_Type (NumberVal n) = cty_Number"
| "cty_Type (BoolVal b) = cty_Bool"
| "cty_Type (ListVal vs) = cty_List"
| "cty_Type (ObjectVal kvs) = cty_Object"

fun IsNull :: "cty_value \<Rightarrow> bool" where
  "IsNull NilVal = True"
| "IsNull (NullVal t) = True"
| "IsNull v = False"

fun AsString :: "cty_value \<Rightarrow> panic + string" where
  "AsString (StringVal s) = Inr s"
| "AsString v = Inl NotAString"

text \<open>
  The element iterator yields key/value pairs: the attribute name as a string value for
  an object, the index as a number for a list. Any other value has no elements.
\<close>

fun ElementIterator :: "cty_value \<Rightarrow> panic + (cty_value \<times> cty_value) list" where
  "ElementIterator (ObjectVal kvs) = Inr (map (\<lambda>(k, v). (StringVal k, v)) kvs)"
| "ElementIterator (ListVal vs) = Inr (zip (map (\<lambda>i. NumberVal (int i)) [0..<length vs]) vs)"
| "ElementIterator v = Inl NotIterable"

section \<open>The plan JSON document\<close>

text \<open>
  A Go map is a finite map; a nil map is \<open>None\<close>. A value stored in a block's value map is
  either the raw JSON of an attribute (\<^verbatim>\<open>json.RawMessage\<close>, nil when the encoder returned
  nothing) or the list of the value maps of the child blocks of one kind.
\<close>

type_synonym bytes = string

datatype jsonValue =
    RawMessage "bytes option"
  | ChildValues "(string, jsonValue) fmap option list"

type_synonym jsonValues = "(string, jsonValue) fmap option"

text \<open>
  An entry of an expressions map: the references of one attribute (struct \<^verbatim>\<open>refs\<close>), or the
  list of the expression maps of the child blocks of one kind.
\<close>

datatype expression =
    refs (References: "string list")
  | ChildExpressions "(string, expression) fmap list"

type_synonym expressions = "(string, expression) fmap"

record ResourceJSON =
  Address :: string
  Mode :: string
  Type :: string
  Name :: string
  SchemaVersion :: int
  Values :: jsonValues

record ResourceChange =
  Actions :: "string list"
  Before :: "jsonValue option"
  After :: jsonValues

record ResourceChangesJSON =
  Address :: string
  ModuleAddress :: string
  Mode :: string
  Type :: string
  Name :: string
  Change :: ResourceChange

record ChildModule =
  Resources :: "ResourceJSON list"

record PlanRootModule =
  Resources :: "ResourceJSON list"
  ChildModules :: "ChildModule list"

record PlannedValues =
  RootModule :: PlanRootModule

record ProviderConfig =
  Name :: string
  Expressions :: "(string, (string, string) fmap) fmap"

record ResourceData =
  Address :: string
  Mode :: string
  Type :: string
  Name :: string
  ProviderConfigKey :: string
  Expressions :: expressions

record ModuleCallModule =
  Resources :: "ResourceData list"

record ModuleCall =
  Source :: string
  Module :: ModuleCallModule

record ConfigurationRootModule =
  Resources :: "ResourceData list"
  ModuleCalls :: "(string, ModuleCall) fmap"

record Configuration =
  ProviderConfig :: "(string, ProviderConfig) fmap"
  RootModule :: ConfigurationRootModule

record PlanSchema =
  FormatVersion :: string
  TerraformVersion :: string
  Variables :: "jsonValue option"
  PlannedValues :: PlannedValues
  ResourceChanges :: "ResourceChangesJSON list"
  Configuration :: Configuration

section \<open>The parsed configuration (package hcl)\<close>

text \<open>
  The parser's blocks reach the provider through their accessor methods only, so a block is
  the tuple of what those accessors return. A reference is its rendering (\<^verbatim>\<open>ref.String()\<close>),
  an attribute's value is what \<^verbatim>\<open>attribute.Value()\<close> returns.
\<close>

record attribute =
  Name :: string
  Value :: cty_value
  AllReferences :: "string list"

datatype block = Block
  (Type: string)
  (TypeLabel: string)
  (NameLabel: string)
  (FullName: string)
  (LocalName: string)
  (ModuleAddress: string)
  (HasModuleBlock: bool)
  (ModuleName: string)
  (ModuleSource: string)
  (Provider: string)
  (GetAttributes: "attribute list")
  (Values: cty_value)
  (Children: "block list")

record module =
  Blocks :: "block list"

text \<open>
  Modelled from the spec: \<^verbatim>\<open>Block.GetAttribute\<close> of package hcl, which is not part of the
  sources at hand. The spec reads an attribute "if present": the attribute of that name, or
  nil.
\<close>

definition GetAttribute :: "block \<Rightarrow> string \<Rightarrow> attribute option" where
  "GetAttribute b name = find (\<lambda>a. Name a = name) (GetAttributes b)"

text \<open>
  Modelled from the spec: \<^verbatim>\<open>Attribute.Value\<close> on a nil attribute, as in
  \<^verbatim>\<open>block.GetAttribute("region").Value()\<close>. The spec records a missing region as the empty
  string, which is the branch taken for \<^verbatim>\<open>cty.NilVal\<close>.
\<close>

definition Value_of :: "attribute option \<Rightarrow> cty_value" where
  "Value_of a = (case a of None \<Rightarrow> NilVal | Some attr \<Rightarrow> Value attr)"

section \<open>Marshalling attribute values\<close>

text \<open>
  \<^verbatim>\<open>ctyJson.Marshal\<close> is a parameter \<open>enc\<close> of the model: it returns the encoded bytes (nil on
  failure) and an error (nil on success). The provider drops the error.
\<close>

type_synonym encoder = "cty_value \<Rightarrow> bytes option \<times> string option"

text \<open>The body of the iterator loop of \<^verbatim>\<open>marshalAttributeValues\<close>.\<close>

fun marshalElements ::
  "encoder \<Rightarrow> string \<Rightarrow> (cty_value \<times> cty_value) list \<Rightarrow> (string, jsonValue) fmap
    \<Rightarrow> panic + (string, jsonValue) fmap" where
  "marshalElements enc blockType [] ret = Inr ret"
| "marshalElements enc blockType ((k, v) # rest) ret =
     (let (vJSON, _) = enc v in
      case AsString k of
        Inl p \<Rightarrow> Inl p
      | Inr key \<Rightarrow>
          if (blockType = ''resource'' \<or> blockType = ''module'') \<and> key = ''count''
          then marshalElements enc blockType rest ret
          else marshalElements enc blockType rest (fmupd key (RawMessage vJSON) ret))"

definition marshalAttributeValues :: "encoder \<Rightarrow> string \<Rightarrow> cty_value \<Rightarrow> panic + jsonValues" where
  "marshalAttributeValues enc blockType v =
     (if v = NilVal \<or> IsNull v then Inr None
      else case ElementIterator v of
        Inl p \<Rightarrow> Inl p
      | Inr it \<Rightarrow>
          (case marshalElements enc blockType it fmempty of
             Inl p \<Rightarrow> Inl p
           | Inr ret \<Rightarrow> Inr (Some ret)))"

section \<open>Marshalling child blocks\<close>

text \<open>
  \<^verbatim>\<open>marshalBlock\<close> writes into the map it is given; the model returns the map. Reading a nil
  map finds nothing, writing to it panics, and so does the type assertion on an entry that
  is an attribute's raw message.
\<close>

fun marshalBlock :: "encoder \<Rightarrow> block \<Rightarrow> jsonValues \<Rightarrow> panic + jsonValues"
  and marshalChildren :: "encoder \<Rightarrow> block list \<Rightarrow> jsonValues \<Rightarrow> panic + jsonValues" where
  "marshalBlock enc (Block bt lbl nm full loc maddr hasm mname msrc prov attrs vals cs) jsonValues =
     marshalChildren enc cs jsonValues"
| "marshalChildren enc [] jsonValues = Inr jsonValues"
| "marshalChildren enc (b # bs) jsonValues =
     (case marshalAttributeValues enc (Type b) (Values b) of
        Inl p \<Rightarrow> Inl p
      | Inr childValues0 \<Rightarrow>
          (case (if length (Children b) > 0 then marshalBlock enc b childValues0
                 else Inr childValues0) of
             Inl p \<Rightarrow> Inl p
           | Inr childValues \<Rightarrow>
               (case jsonValues of
                  None \<Rightarrow> Inl NilMapAssignment
                | Some m \<Rightarrow>
                    (case fmlookup m (Type b) of
                       Some (ChildValues l) \<Rightarrow>
                         marshalChildren enc bs (Some (fmupd (Type b) (ChildValues (l @ [childValues])) m))
                     | Some (RawMessage raw) \<Rightarrow> Inl InterfaceConversion
                     | None \<Rightarrow>
                         marshalChildren enc bs (Some (fmupd (Type b) (ChildValues [childValues]) m))))))"

section \<open>Extracting references\<close>

text \<open>
  \<^verbatim>\<open>len\<close> of a Go map.
\<close>

definition len :: "('k, 'v) fmap \<Rightarrow> nat" where
  "len m = fcard (fmdom m)"

text \<open>
  Go leaves the order of \<^verbatim>\<open>range\<close> over a map unspecified. The order is a parameter \<open>ro\<close>
  of the model: it lists the entries of the map it is given. An admissible order lists
  every entry once.
\<close>

type_synonym range_order =
  "(string, expressions list) fmap \<Rightarrow> (string \<times> expressions list) list"

definition admissible :: "range_order \<Rightarrow> bool" where
  "admissible ro \<longleftrightarrow>
     (\<forall>m. distinct (map fst (ro m)) \<and> (\<forall>k v. (k, v) \<in> set (ro m) \<longleftrightarrow> fmlookup m k = Some v))"

text \<open>The loop \<^verbatim>\<open>for name, v := range childExpressions\<close>.\<close>

fun rangeLoop :: "(string \<times> expressions list) list \<Rightarrow> expressions \<Rightarrow> expressions" where
  "rangeLoop [] expressionValues = expressionValues"
| "rangeLoop ((name, v) # rest) expressionValues =
     rangeLoop rest (fmupd name (ChildExpressions v) expressionValues)"

text \<open>
  \<^verbatim>\<open>blockToReferences\<close>: the loop over the attributes, and inside it the loop over the
  children, which runs once for every attribute of the block.
\<close>

function blockToReferences :: "range_order \<Rightarrow> block \<Rightarrow> expressions"
  and attributesLoop ::
    "range_order \<Rightarrow> attribute list \<Rightarrow> block list \<Rightarrow> expressions \<Rightarrow> expressions"
  and childrenLoop ::
    "range_order \<Rightarrow> block list \<Rightarrow> (string, expressions list) fmap
      \<Rightarrow> (string, expressions list) fmap" where
  "blockToReferences ro (Block bt lbl nm full loc maddr hasm mname msrc prov attrs vals cs) =
     attributesLoop ro attrs cs fmempty"
| "attributesLoop ro [] cs expressionValues = expressionValues"
| "attributesLoop ro (a # rest) cs expressionValues =
     (let ev1 = (if length (AllReferences a) > 0
                 then fmupd (Name a) (refs (AllReferences a)) expressionValues
                 else expressionValues);
          childExpressions = childrenLoop ro cs fmempty;
          ev2 = (if len childExpressions > 0 then rangeLoop (ro childExpressions) ev1 else ev1)
      in attributesLoop ro rest cs ev2)"
| "childrenLoop ro [] childExpressions = childExpressions"
| "childrenLoop ro (child # rest) childExpressions =
     (let vals = (case fmlookup childExpressions (Type child) of None \<Rightarrow> [] | Some v \<Rightarrow> v);
          childReferences = blockToReferences ro child
      in childrenLoop ro rest
           (if len childReferences > 0
            then fmupd (Type child) (vals @ [childReferences]) childExpressions
            else childExpressions))"
  by pat_completeness auto
termination
  by (relation "inv_image (less_than <*lex*> less_than)
        (\<lambda>x. case x of
           Inl (ro, b) \<Rightarrow> (size b, 0)
         | Inr (Inl (ro, as, cs, ev)) \<Rightarrow> (size_list size cs, Suc (length as))
         | Inr (Inr (ro, cs, ce)) \<Rightarrow> (size_list size cs, 0))")
     auto

section \<open>Assembling the plan\<close>

definition emptyPlan :: PlanSchema where
  "emptyPlan =
     \<lparr>FormatVersion = ''1.0'',
      TerraformVersion = ''1.1.0'',
      Variables = None,
      PlannedValues =
        \<lparr>PlannedValues.RootModule =
           \<lparr>PlanRootModule.Resources = [],
            ChildModules = [\<lparr>ChildModule.Resources = []\<rparr>]\<rparr>\<rparr>,
      ResourceChanges = [],
      Configuration =
        \<lparr>ProviderConfig = fmempty,
         Configuration.RootModule =
           \<lparr>ConfigurationRootModule.Resources = [], ModuleCalls = fmempty\<rparr>\<rparr>\<rparr>"

text \<open>The effective name of a provider block: its alias, else its type label.\<close>

definition providerName :: "block \<Rightarrow> panic + string" where
  "providerName block =
     (case GetAttribute block ''alias'' of
        None \<Rightarrow> Inr (TypeLabel block)
      | Some a \<Rightarrow> AsString (Value a))"

definition providerRegion :: "block \<Rightarrow> panic + string" where
  "providerRegion block =
     (let v = Value_of (GetAttribute block ''region'')
      in if v \<noteq> NilVal then AsString v else Inr '''')"

definition providerConfig :: "string \<Rightarrow> string \<Rightarrow> ProviderConfig" where
  "providerConfig name region =
     \<lparr>ProviderConfig.Name = name,
      ProviderConfig.Expressions =
        fmupd ''region'' (fmupd ''constant_value'' region fmempty) fmempty\<rparr>"

text \<open>The body of the first loop, for a block of type \<^verbatim>\<open>provider\<close>.\<close>

definition providerBlock ::
  "block \<Rightarrow> string \<Rightarrow> PlanSchema \<Rightarrow> panic + (string \<times> PlanSchema)" where
  "providerBlock block providerKey sch =
     (case providerName block of
        Inl p \<Rightarrow> Inl p
      | Inr name \<Rightarrow>
          (case providerRegion block of
             Inl p \<Rightarrow> Inl p
           | Inr region \<Rightarrow>
               Inr (if providerKey = '''' then name else providerKey,
                    sch\<lparr>Configuration := (Configuration sch)
                      \<lparr>ProviderConfig :=
                         fmupd name (providerConfig name region)
                           (ProviderConfig (Configuration sch))\<rparr>\<rparr>)))"

text \<open>First loop over the blocks of a module: the provider blocks.\<close>

fun providerLoop :: "block list \<Rightarrow> string \<Rightarrow> PlanSchema \<Rightarrow> panic + (string \<times> PlanSchema)" where
  "providerLoop [] providerKey sch = Inr (providerKey, sch)"
| "providerLoop (block # rest) providerKey sch =
     (if Type block = ''provider'' then
        (case providerBlock block providerKey sch of
           Inl p \<Rightarrow> Inl p
         | Inr (providerKey1, sch1) \<Rightarrow> providerLoop rest providerKey1 sch1)
      else providerLoop rest providerKey sch)"

text \<open>The value snapshot of a resource block: its attributes, then its child blocks.\<close>

definition resourceValues :: "encoder \<Rightarrow> block \<Rightarrow> panic + jsonValues" where
  "resourceValues enc block =
     (case marshalAttributeValues enc (Type block) (Values block) of
        Inl p \<Rightarrow> Inl p
      | Inr jsonValues \<Rightarrow> marshalBlock enc block jsonValues)"

definition resourceJSON :: "block \<Rightarrow> jsonValues \<Rightarrow> ResourceJSON" where
  "resourceJSON block jsonValues =
     \<lparr>ResourceJSON.Address = FullName block,
      ResourceJSON.Mode = ''managed'',
      ResourceJSON.Type = TypeLabel block,
      ResourceJSON.Name = NameLabel block,
      SchemaVersion = 1,
      ResourceJSON.Values = jsonValues\<rparr>"

definition resourceChangesJSON :: "block \<Rightarrow> jsonValues \<Rightarrow> ResourceChangesJSON" where
  "resourceChangesJSON block jsonValues =
     \<lparr>ResourceChangesJSON.Address = FullName block,
      ResourceChangesJSON.ModuleAddress = ModuleAddress block,
      ResourceChangesJSON.Mode = ''managed'',
      ResourceChangesJSON.Type = TypeLabel block,
      ResourceChangesJSON.Name = NameLabel block,
      Change = \<lparr>Actions = [''create''], Before = None, After = jsonValues\<rparr>\<rparr>"

definition providerConfigKey :: "string \<Rightarrow> block \<Rightarrow> panic + string" where
  "providerConfigKey providerKey block =
     (case GetAttribute block ''provider'' of
        None \<Rightarrow> Inr providerKey
      | Some providerAttr \<Rightarrow>
          (let v = Value providerAttr
           in if cty_Type v = cty_String then AsString v else Inr providerKey))"

definition moduleResourceData :: "range_order \<Rightarrow> block \<Rightarrow> ResourceData" where
  "moduleResourceData ro block =
     \<lparr>ResourceData.Address = LocalName block,
      ResourceData.Mode = ''managed'',
      ResourceData.Type = TypeLabel block,
      ResourceData.Name = NameLabel block,
      ProviderConfigKey = ModuleName block @ '':'' @ Provider block,
      ResourceData.Expressions = blockToReferences ro block\<rparr>"

definition rootResourceData :: "range_order \<Rightarrow> string \<Rightarrow> block \<Rightarrow> ResourceData" where
  "rootResourceData ro key block =
     \<lparr>ResourceData.Address = FullName block,
      ResourceData.Mode = ''managed'',
      ResourceData.Type = TypeLabel block,
      ResourceData.Name = LocalName block,
      ProviderConfigKey = key,
      ResourceData.Expressions = blockToReferences ro block\<rparr>"

text \<open>The two branches on \<^verbatim>\<open>block.HasModuleBlock()\<close>.\<close>

definition addModuleResource ::
  "range_order \<Rightarrow> block \<Rightarrow> ResourceJSON \<Rightarrow> PlanSchema \<Rightarrow> panic + PlanSchema" where
  "addModuleResource ro block r sch =
     (let calls = ModuleCalls (Configuration.RootModule (Configuration sch));
          modCall0 = (case fmlookup calls (ModuleName block) of
                        Some mc \<Rightarrow> mc
                      | None \<Rightarrow> \<lparr>Source = ModuleSource block,
                                 Module = \<lparr>ModuleCallModule.Resources = []\<rparr>\<rparr>);
          modCall = modCall0\<lparr>Module := (Module modCall0)
                      \<lparr>ModuleCallModule.Resources :=
                         ModuleCallModule.Resources (Module modCall0)
                           @ [moduleResourceData ro block]\<rparr>\<rparr>;
          sch1 = sch\<lparr>Configuration := (Configuration sch)
                   \<lparr>Configuration.RootModule :=
                      (Configuration.RootModule (Configuration sch))
                        \<lparr>ModuleCalls := fmupd (ModuleName block) modCall calls\<rparr>\<rparr>\<rparr>
      in case ChildModules (PlannedValues.RootModule (PlannedValues sch1)) of
           [] \<Rightarrow> Inl IndexOutOfRange
         | cm # cms \<Rightarrow>
             Inr (sch1\<lparr>PlannedValues := (PlannedValues sch1)
                    \<lparr>PlannedValues.RootModule :=
                       (PlannedValues.RootModule (PlannedValues sch1))
                         \<lparr>ChildModules :=
                            cm\<lparr>ChildModule.Resources := ChildModule.Resources cm @ [r]\<rparr> # cms\<rparr>\<rparr>\<rparr>))"

definition addRootResource ::
  "range_order \<Rightarrow> string \<Rightarrow> block \<Rightarrow> ResourceJSON \<Rightarrow> PlanSchema \<Rightarrow> PlanSchema" where
  "addRootResource ro key block r sch =
     (let sch1 = sch\<lparr>Configuration := (Configuration sch)
                   \<lparr>Configuration.RootModule :=
                      (Configuration.RootModule (Configuration sch))
                        \<lparr>ConfigurationRootModule.Resources :=
                           ConfigurationRootModule.Resources
                             (Configuration.RootModule (Configuration sch))
                             @ [rootResourceData ro key block]\<rparr>\<rparr>\<rparr>
      in sch1\<lparr>PlannedValues := (PlannedValues sch1)
           \<lparr>PlannedValues.RootModule :=
              (PlannedValues.RootModule (PlannedValues sch1))
                \<lparr>PlanRootModule.Resources :=
                   PlanRootModule.Resources (PlannedValues.RootModule (PlannedValues sch1))
                     @ [r]\<rparr>\<rparr>\<rparr>)"

text \<open>The body of the second loop, for a block of type \<^verbatim>\<open>resource\<close>.\<close>

definition resourceBlock ::
  "range_order \<Rightarrow> encoder \<Rightarrow> string \<Rightarrow> block \<Rightarrow> PlanSchema \<Rightarrow> panic + PlanSchema" where
  "resourceBlock ro enc providerKey block sch =
     (case resourceValues enc block of
        Inl p \<Rightarrow> Inl p
      | Inr jsonValues \<Rightarrow>
          (let c = resourceChangesJSON block jsonValues;
               r = resourceJSON block jsonValues
           in case providerConfigKey providerKey block of
                Inl p \<Rightarrow> Inl p
              | Inr key \<Rightarrow>
                  (case (if HasModuleBlock block then addModuleResource ro block r sch
                         else Inr (addRootResource ro key block r sch)) of
                     Inl p \<Rightarrow> Inl p
                   | Inr sch1 \<Rightarrow> Inr (sch1\<lparr>ResourceChanges := ResourceChanges sch1 @ [c]\<rparr>))))"

text \<open>Second loop over the blocks of a module: the resource blocks.\<close>

fun resourceLoop ::
  "range_order \<Rightarrow> encoder \<Rightarrow> block list \<Rightarrow> string \<Rightarrow> PlanSchema \<Rightarrow> panic + PlanSchema" where
  "resourceLoop ro enc [] providerKey sch = Inr sch"
| "resourceLoop ro enc (block # rest) providerKey sch =
     (if Type block = ''resource'' then
        (case resourceBlock ro enc providerKey block sch of
           Inl p \<Rightarrow> Inl p
         | Inr sch1 \<Rightarrow> resourceLoop ro enc rest providerKey sch1)
      else resourceLoop ro enc rest providerKey sch)"

text \<open>The loop over the modules; \<^verbatim>\<open>providerKey\<close> starts empty in each module.\<close>

fun modulesLoop ::
  "range_order \<Rightarrow> encoder \<Rightarrow> module list \<Rightarrow> PlanSchema \<Rightarrow> panic + PlanSchema" where
  "modulesLoop ro enc [] sch = Inr sch"
| "modulesLoop ro enc (m # rest) sch =
     (case providerLoop (Blocks m) '''' sch of
        Inl p \<Rightarrow> Inl p
      | Inr (providerKey, sch1) \<Rightarrow>
          (case resourceLoop ro enc (Blocks m) providerKey sch1 of
             Inl p \<Rightarrow> Inl p
           | Inr sch2 \<Rightarrow> modulesLoop ro enc rest sch2))"

definition modulesToPlanJSON :: "range_order \<Rightarrow> encoder \<Rightarrow> module list \<Rightarrow> panic + PlanSchema" where
  "modulesToPlanJSON ro enc modules = modulesLoop ro enc modules emptyPlan"

section \<open>Loading the plan JSON\<close>

text \<open>
  \<^verbatim>\<open>json.Marshal\<close> of the assembled document is a parameter \<open>json_Marshal\<close>, and so is the
  result \<open>parsed\<close> of \<^verbatim>\<open>Parser.ParseDirectory\<close>. The function returns the Go pair of bytes and
  error, unless it panics.
\<close>

type_synonym marshaller = "PlanSchema \<Rightarrow> string + bytes"

definition loadPlanJSON ::
  "range_order \<Rightarrow> encoder \<Rightarrow> marshaller \<Rightarrow> string + module list
    \<Rightarrow> panic + (bytes option \<times> string option)" where
  "loadPlanJSON ro enc json_Marshal parsed =
     (case parsed of
        Inl err \<Rightarrow> Inr (None, Some err)
      | Inr modules \<Rightarrow>
          (case modulesToPlanJSON ro enc modules of
             Inl p \<Rightarrow> Inl p
           | Inr sch \<Rightarrow>
               (case json_Marshal sch of
                  Inl err \<Rightarrow> Inr (None, Some (''error handling built plan json from hcl '' @ err))
                | Inr b \<Rightarrow> Inr (Some b, None))))"

section \<open>Reading the assembled document\<close>

text \<open>
  The notions in which the properties below are stated. None of them is part of the
  program: each names something the program's text says in passing.
\<close>

abbreviation plannedRoot :: "PlanSchema \<Rightarrow> ResourceJSON list" where
  "plannedRoot sch \<equiv> PlanRootModule.Resources (PlannedValues.RootModule (PlannedValues sch))"

abbreviation childModules :: "PlanSchema \<Rightarrow> ChildModule list" where
  "childModules sch \<equiv> ChildModules (PlannedValues.RootModule (PlannedValues sch))"

abbreviation configResources :: "PlanSchema \<Rightarrow> ResourceData list" where
  "configResources sch \<equiv>
     ConfigurationRootModule.Resources (Configuration.RootModule (Configuration sch))"

abbreviation moduleCalls :: "PlanSchema \<Rightarrow> (string, ModuleCall) fmap" where
  "moduleCalls sch \<equiv> ModuleCalls (Configuration.RootModule (Configuration sch))"

abbreviation providerConfigs :: "PlanSchema \<Rightarrow> (string, ProviderConfig) fmap" where
  "providerConfigs sch \<equiv> ProviderConfig (Configuration sch)"

text \<open>The blocks of all modules, in the order in which the loops visit them.\<close>

definition allBlocks :: "module list \<Rightarrow> block list" where
  "allBlocks modules = concat (map Blocks modules)"

definition isProvider :: "block \<Rightarrow> bool" where
  "isProvider block \<longleftrightarrow> Type block = ''provider''"

definition isResource :: "block \<Rightarrow> bool" where
  "isResource block \<longleftrightarrow> Type block = ''resource''"

text \<open>A resource block inside a module call, and one at the root.\<close>

definition isNested :: "block \<Rightarrow> bool" where
  "isNested block \<longleftrightarrow> Type block = ''resource'' \<and> HasModuleBlock block"

definition isRoot :: "block \<Rightarrow> bool" where
  "isRoot block \<longleftrightarrow> Type block = ''resource'' \<and> \<not> HasModuleBlock block"

text \<open>The attribute that \<^verbatim>\<open>marshalAttributeValues\<close> leaves out.\<close>

definition skipped :: "string \<Rightarrow> string \<Rightarrow> bool" where
  "skipped blockType key \<longleftrightarrow>
     (blockType = ''resource'' \<or> blockType = ''module'') \<and> key = ''count''"

text \<open>
  The value snapshot, the provider key and the region of a block for which the program
  computes them without a panic.
\<close>

definition snapshot :: "encoder \<Rightarrow> block \<Rightarrow> jsonValues" where
  "snapshot enc block =
     (case resourceValues enc block of Inr jsonValues \<Rightarrow> jsonValues | Inl p \<Rightarrow> None)"

definition effectiveKey :: "string \<Rightarrow> block \<Rightarrow> string" where
  "effectiveKey providerKey block =
     (case providerConfigKey providerKey block of Inr key \<Rightarrow> key | Inl p \<Rightarrow> providerKey)"

definition regionOf :: "block \<Rightarrow> string" where
  "regionOf block = (case providerRegion block of Inr region \<Rightarrow> region | Inl p \<Rightarrow> '''')"

text \<open>
  The default provider key of a module: the name of its first provider block whose name is
  not the empty string.
\<close>

definition defaultProviderKey :: "block list \<Rightarrow> string" where
  "defaultProviderKey bs =
     (case find (\<lambda>b. isProvider b \<and> providerName b \<noteq> Inr '''') bs of
        None \<Rightarrow> ''''
      | Some b \<Rightarrow> (case providerName b of Inr name \<Rightarrow> name | Inl p \<Rightarrow> ''''))"

text \<open>The last provider block of a name, and the configuration recorded under that name.\<close>

definition lastProvider :: "string \<Rightarrow> block list \<Rightarrow> block option" where
  "lastProvider name bs =
     (case filter (\<lambda>b. isProvider b \<and> providerName b = Inr name) bs of
        [] \<Rightarrow> None
      | b # rest \<Rightarrow> Some (last (b # rest)))"

definition recorded ::
  "string \<Rightarrow> block list \<Rightarrow> ProviderConfig option \<Rightarrow> ProviderConfig option" where
  "recorded name bs old =
     (case lastProvider name bs of
        None \<Rightarrow> old
      | Some b \<Rightarrow> Some (providerConfig name (regionOf b)))"

text \<open>The declarations of the root resources of a module.\<close>

definition rootDeclarations :: "range_order \<Rightarrow> module \<Rightarrow> ResourceData list" where
  "rootDeclarations ro m =
     map (\<lambda>b. rootResourceData ro (effectiveKey (defaultProviderKey (Blocks m)) b) b)
       (filter isRoot (Blocks m))"

text \<open>
  The module call that holds the declarations of the nested resources \<open>bs\<close> of one module
  name: created for the first of them, extended by the others.
\<close>

definition callOf :: "range_order \<Rightarrow> block list \<Rightarrow> ModuleCall option" where
  "callOf ro bs =
     (case bs of
        [] \<Rightarrow> None
      | b # rest \<Rightarrow>
          Some \<lparr>Source = ModuleSource b,
                Module = \<lparr>ModuleCallModule.Resources = map (moduleResourceData ro) (b # rest)\<rparr>\<rparr>)"

definition extendCall :: "range_order \<Rightarrow> block list \<Rightarrow> ModuleCall option \<Rightarrow> ModuleCall option" where
  "extendCall ro bs old =
     (case old of
        None \<Rightarrow> callOf ro bs
      | Some mc \<Rightarrow>
          Some (mc\<lparr>Module := (Module mc)\<lparr>ModuleCallModule.Resources :=
                  ModuleCallModule.Resources (Module mc) @ map (moduleResourceData ro) bs\<rparr>\<rparr>))"

text \<open>The nested resources of one module name.\<close>

definition nestedIn :: "string \<Rightarrow> module list \<Rightarrow> block list" where
  "nestedIn name modules = filter (\<lambda>b. isNested b \<and> ModuleName b = name) (allBlocks modules)"

text \<open>The provider a resource block names itself: its \<^verbatim>\<open>provider\<close> attribute, if a string.\<close>

definition explicitProvider :: "block \<Rightarrow> string option" where
  "explicitProvider block =
     (case GetAttribute block ''provider'' of
        None \<Rightarrow> None
      | Some a \<Rightarrow> (case Value a of StringVal s \<Rightarrow> Some s | _ \<Rightarrow> None))"

text \<open>
  The extraction results of the children of one kind that have any entry, and the last
  attribute of a name that has references.
\<close>

definition childResults :: "range_order \<Rightarrow> string \<Rightarrow> block list \<Rightarrow> expressions list" where
  "childResults ro kind cs =
     filter (\<lambda>r. 0 < len r) (map (blockToReferences ro) (filter (\<lambda>c. Type c = kind) cs))"

definition lastReferencing :: "string \<Rightarrow> attribute list \<Rightarrow> attribute option" where
  "lastReferencing name as =
     (case filter (\<lambda>a. Name a = name \<and> 0 < length (AllReferences a)) as of
        [] \<Rightarrow> None
      | a # rest \<Rightarrow> Some (last (a # rest)))"

text \<open>
  The inputs on which no block makes the assembler panic: the name and the region of every
  provider block, and the value snapshot and the provider key of every resource block, are
  computed without a panic.
\<close>

definition runs :: "encoder \<Rightarrow> module list \<Rightarrow> bool" where
  "runs enc modules \<longleftrightarrow>
     (\<forall>b \<in> set (allBlocks modules).
        (isProvider b \<longrightarrow> \<not> isl (providerName b) \<and> \<not> isl (providerRegion b)) \<and>
        (isResource b \<longrightarrow> \<not> isl (resourceValues enc b) \<and> \<not> isl (providerConfigKey '''' b)))"

text \<open>
  Two value maps have the same shape when both are nil, or both have the same keys, with an
  attribute's raw message under a key in the one exactly where the other has one. Whether
  \<^verbatim>\<open>marshalBlock\<close> panics depends on the shape of the map alone.
\<close>

definition isRaw :: "jsonValue \<Rightarrow> bool" where
  "isRaw v = (case v of RawMessage raw \<Rightarrow> True | ChildValues l \<Rightarrow> False)"

definition sameShape :: "jsonValues \<Rightarrow> jsonValues \<Rightarrow> bool" where
  "sameShape jv jv' \<longleftrightarrow> rel_option (fmrel (\<lambda>v v'. isRaw v = isRaw v')) jv jv'"

section \<open>Two iteration orders and example configurations\<close>

text \<open>
  Two admissible orders for \<^verbatim>\<open>range\<close>: ascending and descending in the keys.
\<close>

definition ascending :: range_order where
  "ascending m = sorted_list_of_fmap m"

definition descending :: range_order where
  "descending m = rev (sorted_list_of_fmap m)"

text \<open>
  An encoder for the examples. It fails on an unknown value, as \<^verbatim>\<open>ctyJson.Marshal\<close> does,
  and writes \<^verbatim>\<open>null\<close> for every other value. Two more encoders: one that never fails, and
  one that fails on an unknown value and leaves bytes behind, an empty slice that is not nil.
\<close>

definition sampleEncoder :: encoder where
  "sampleEncoder v =
     (case v of
        UnknownVal t \<Rightarrow> (None, Some ''value is not known'')
      | _ \<Rightarrow> (Some ''null'', None))"

definition totalEncoder :: encoder where
  "totalEncoder v = (Some ''null'', None)"

definition truncatingEncoder :: encoder where
  "truncatingEncoder v =
     (case v of
        UnknownVal t \<Rightarrow> (Some '''', Some ''value is not known'')
      | _ \<Rightarrow> (Some ''null'', None))"

text \<open>
  A marshaller of the document for the examples. A nil raw message is written as
  \<^verbatim>\<open>null\<close>; a raw message of no bytes that is not nil is no JSON text, and \<^verbatim>\<open>json.Marshal\<close>
  fails on a document that holds one. The sample looks at the snapshots of the resource
  changes and writes their addresses.
\<close>

definition truncated :: "jsonValues \<Rightarrow> bool" where
  "truncated jv =
     (case jv of
        None \<Rightarrow> False
      | Some m \<Rightarrow> \<not> fmpred (\<lambda>k v. v \<noteq> RawMessage (Some '''')) m)"

definition sampleMarshal :: marshaller where
  "sampleMarshal sch =
     (if list_ex (\<lambda>c. truncated (After (Change c))) (ResourceChanges sch)
      then Inl ''json: error calling MarshalJSON for type json.RawMessage: unexpected end of JSON input''
      else Inr (concat (map (\<lambda>c. ResourceChangesJSON.Address c @ ''; '') (ResourceChanges sch))))"

text \<open>
  A configuration of two modules: a provider and an instance with a volume at the root, and
  a subnet inside the module call \<^verbatim>\<open>net\<close>. The size of the volume is unknown.
\<close>

definition awsProvider :: block where
  "awsProvider =
     Block ''provider'' ''aws'' '''' ''provider.aws'' ''provider.aws'' '''' False '''' '''' ''''
       [\<lparr>Name = ''region'', Value = StringVal ''us-east-1'', AllReferences = []\<rparr>]
       (ObjectVal [(''region'', StringVal ''us-east-1'')]) []"

definition ebsDevice :: block where
  "ebsDevice =
     Block ''ebs_block_device'' '''' '''' ''ebs_block_device'' ''ebs_block_device'' '''' False
       '''' '''' ''''
       [\<lparr>Name = ''size'', Value = UnknownVal cty_Number, AllReferences = [''var.size'']\<rparr>]
       (ObjectVal [(''size'', UnknownVal cty_Number)]) []"

definition webInstance :: block where
  "webInstance =
     Block ''resource'' ''aws_instance'' ''web'' ''aws_instance.web'' ''aws_instance.web'' ''''
       False '''' '''' ''aws''
       [\<lparr>Name = ''ami'', Value = StringVal ''ami-1'',
          AllReferences = [''var.ami'', ''var.region'']\<rparr>,
        \<lparr>Name = ''count'', Value = NumberVal 3, AllReferences = []\<rparr>]
       (ObjectVal [(''ami'', StringVal ''ami-1''), (''count'', NumberVal 3)]) [ebsDevice]"

definition netSubnet :: block where
  "netSubnet =
     Block ''resource'' ''aws_subnet'' ''main'' ''module.net.aws_subnet.main'' ''aws_subnet.main''
       ''module.net'' True ''net'' ''./modules/net'' ''aws''
       [] (ObjectVal []) []"

definition exampleModules :: "module list" where
  "exampleModules = [\<lparr>Blocks = [awsProvider, webInstance]\<rparr>, \<lparr>Blocks = [netSubnet]\<rparr>]"

text \<open>
  A second subnet, inside another module call that is also named \<^verbatim>\<open>net\<close> and has
  another source.
\<close>

definition otherNetSubnet :: block where
  "otherNetSubnet =
     Block ''resource'' ''aws_subnet'' ''other'' ''module.app.module.net.aws_subnet.other''
       ''aws_subnet.other'' ''module.app.module.net'' True ''net'' ''./modules/other-net'' ''aws''
       [] (ObjectVal []) []"

text \<open>A provider whose alias is the empty string, and a provider without alias.\<close>

definition emptyAliasProvider :: block where
  "emptyAliasProvider =
     Block ''provider'' ''aws'' '''' ''provider.aws'' ''provider.aws'' '''' False '''' '''' ''''
       [\<lparr>Name = ''alias'', Value = StringVal '''', AllReferences = []\<rparr>]
       (ObjectVal [(''alias'', StringVal '''')]) []"

definition googleProvider :: block where
  "googleProvider =
     Block ''provider'' ''google'' '''' ''provider.google'' ''provider.google'' '''' False
       '''' '''' ''''
       [] (ObjectVal []) []"

text \<open>A provider whose region is a number.\<close>

definition numericRegionProvider :: block where
  "numericRegionProvider =
     Block ''provider'' ''aws'' '''' ''provider.aws'' ''provider.aws'' '''' False '''' '''' ''''
       [\<lparr>Name = ''region'', Value = NumberVal 5, AllReferences = []\<rparr>]
       (ObjectVal [(''region'', NumberVal 5)]) []"

text \<open>A resource whose attribute values are \<^verbatim>\<open>cty.NilVal\<close>, with a child block.\<close>

definition nullResource :: block where
  "nullResource =
     Block ''resource'' ''aws_instance'' ''web'' ''aws_instance.web'' ''aws_instance.web'' ''''
       False '''' '''' ''aws'' [] NilVal [ebsDevice]"

text \<open>
  An instance with child blocks of two kinds, and the map \<^verbatim>\<open>childExpressions\<close> that
  \<^verbatim>\<open>blockToReferences\<close> ranges over for it.
\<close>

definition networkInterface :: block where
  "networkInterface =
     Block ''network_interface'' '''' '''' ''network_interface'' ''network_interface'' '''' False
       '''' '''' ''''
       [\<lparr>Name = ''subnet_id'', Value = UnknownVal cty_String,
          AllReferences = [''aws_subnet.main.id'']\<rparr>]
       (ObjectVal [(''subnet_id'', UnknownVal cty_String)]) []"

definition appInstance :: block where
  "appInstance =
     Block ''resource'' ''aws_instance'' ''app'' ''aws_instance.app'' ''aws_instance.app'' ''''
       False '''' '''' ''aws''
       [\<lparr>Name = ''ami'', Value = StringVal ''ami-1'', AllReferences = [''var.ami'']\<rparr>]
       (ObjectVal [(''ami'', StringVal ''ami-1'')]) [networkInterface, ebsDevice]"

definition childKinds :: "(string, expressions list) fmap" where
  "childKinds = childrenLoop ascending (Children appInstance) fmempty"

text \<open>A security group without attributes, with one ingress rule that refers to a variable.\<close>

definition ingressRule :: block where
  "ingressRule =
     Block ''ingress'' '''' '''' ''ingress'' ''ingress'' '''' False '''' '''' ''''
       [\<lparr>Name = ''cidr_blocks'', Value = ListVal [StringVal ''10.0.0.0/16''],
          AllReferences = [''var.cidr'']\<rparr>]
       (ObjectVal [(''cidr_blocks'', ListVal [StringVal ''10.0.0.0/16''])]) []"

definition securityGroup :: block where
  "securityGroup =
     Block ''resource'' ''aws_security_group'' ''sg'' ''aws_security_group.sg''
       ''aws_security_group.sg'' '''' False '''' '''' ''aws''
       [] (ObjectVal []) [ingressRule]"

text \<open>
  An instance whose image is not known before the plan is applied, and an instance with a
  \<^verbatim>\<open>count\<close> attribute and a child block of kind \<^verbatim>\<open>count\<close>.
\<close>

definition pendingInstance :: block where
  "pendingInstance =
     Block ''resource'' ''aws_instance'' ''pending'' ''aws_instance.pending''
       ''aws_instance.pending'' '''' False '''' '''' ''aws''
       [\<lparr>Name = ''ami'', Value = UnknownVal cty_String,
          AllReferences = [''data.aws_ami.latest.id'']\<rparr>]
       (ObjectVal [(''ami'', UnknownVal cty_String)]) []"



section \<open>Properties of the functions\<close>

subsection \<open>Finite maps and iteration orders\<close>

text \<open>
  The length of a Go map is positive exactly for a map with an entry. Ascending and
  descending key order are admissible orders, and an admissible order lists a map as an
  association list.
\<close>

lemma fmupd_not_empty: "fmupd k v m \<noteq> fmempty"
proof
  assume "fmupd k v m = fmempty"
  then have "fmlookup (fmupd k v m) k = fmlookup fmempty k" by simp
  then show False by simp
qed

lemma fmdom_empty_iff: "fmdom m = {||} \<longleftrightarrow> m = fmempty"
proof
  assume "fmdom m = {||}"
  then have "\<And>k. fmlookup m k = None" by (metis fmdom_notD fempty_iff)
  then show "m = fmempty" by (intro fmap_ext) simp
qed simp

lemma len_pos_iff: "0 < len m \<longleftrightarrow> m \<noteq> fmempty"
  by (metis fmdom_empty_iff len_def fcard_fempty fcard_0_eq gr0I less_numeral_extra(3))

lemma sorted_list_of_fset_single: "sorted_list_of_fset {|x|} = [x]"
  by (simp add: sorted_list_of_fset.rep_eq)

lemma ascending_single: "ascending (fmupd k v fmempty) = [(k, v)]"
  by (simp add: ascending_def sorted_list_of_fmap_def sorted_list_of_fset_single)

lemma sorted_list_of_fmap_set:
  "(k, v) \<in> set (sorted_list_of_fmap m) \<longleftrightarrow> fmlookup m k = Some v"
proof -
  have "set (sorted_list_of_fmap m) = (\<lambda>k. (k, the (fmlookup m k))) ` fmdom' m"
    by (simp add: sorted_list_of_fmap_def fmdom'_alt_def)
  then show ?thesis by (auto simp: fmlookup_dom'_iff)
qed

lemma sorted_list_of_fmap_distinct: "distinct (map fst (sorted_list_of_fmap m))"
  by (simp add: sorted_list_of_fmap_def comp_def sorted_list_of_fset.rep_eq)

lemma admissible_ascending: "admissible ascending"
  by (simp add: admissible_def ascending_def sorted_list_of_fmap_set sorted_list_of_fmap_distinct)

lemma admissible_descending: "admissible descending"
  by (simp add: admissible_def descending_def sorted_list_of_fmap_set
      sorted_list_of_fmap_distinct rev_map[symmetric])

lemma admissible_map_of:
  assumes "admissible ro"
  shows "map_of (ro m) k = fmlookup m k"
proof -
  from assms have d: "distinct (map fst (ro m))"
    and s: "\<And>k v. (k, v) \<in> set (ro m) \<longleftrightarrow> fmlookup m k = Some v"
    by (simp_all add: admissible_def)
  show ?thesis
  proof (cases "fmlookup m k")
    case None
    with s have "k \<notin> fst ` set (ro m)" by force
    then show ?thesis using None by (simp add: map_of_eq_None_iff)
  next
    case (Some v)
    with s have "(k, v) \<in> set (ro m)" by simp
    with d show ?thesis using Some by simp
  qed
qed

subsection \<open>Marshalling of values and child blocks\<close>

text \<open>
  What \<^verbatim>\<open>marshalAttributeValues\<close> returns for an object value, and what \<^verbatim>\<open>marshalBlock\<close>
  adds to a map: lists of child values under the kinds of the children, and nothing else. On
  the nil map it panics as soon as there is a child.
\<close>

lemma marshalElements_object:
  "\<exists>ret'. marshalElements enc blockType (map (\<lambda>(k, v). (StringVal k, v)) kvs) ret = Inr ret' \<and>
     (\<forall>key. fmlookup ret' key =
        (case map_of (rev kvs) key of
           Some v \<Rightarrow> if skipped blockType key then fmlookup ret key else Some (RawMessage (fst (enc v)))
         | None \<Rightarrow> fmlookup ret key))"
proof (induction kvs arbitrary: ret)
  case Nil
  then show ?case by simp
next
  case (Cons kv kvs)
  obtain k v where kv: "kv = (k, v)" by (cases kv)
  let ?ret1 = "if skipped blockType k then ret else fmupd k (RawMessage (fst (enc v))) ret"
  from Cons.IH[of ?ret1] obtain ret' where
    r: "marshalElements enc blockType (map (\<lambda>(k, v). (StringVal k, v)) kvs) ?ret1 = Inr ret'"
    and l: "\<forall>key. fmlookup ret' key =
        (case map_of (rev kvs) key of
           Some v \<Rightarrow> if skipped blockType key then fmlookup ?ret1 key else Some (RawMessage (fst (enc v)))
         | None \<Rightarrow> fmlookup ?ret1 key)" by blast
  have "marshalElements enc blockType (map (\<lambda>(k, v). (StringVal k, v)) (kv # kvs)) ret = Inr ret'"
    using r kv by (cases "enc v") (auto simp: skipped_def)
  moreover have "\<forall>key. fmlookup ret' key =
        (case map_of (rev (kv # kvs)) key of
           Some v \<Rightarrow> if skipped blockType key then fmlookup ret key else Some (RawMessage (fst (enc v)))
         | None \<Rightarrow> fmlookup ret key)"
    using l kv by (auto simp: map_add_def skipped_def split: option.splits)
  ultimately show ?case by blast
qed


lemma marshalAttributeValues_nil:
  "v = NilVal \<or> IsNull v \<Longrightarrow> marshalAttributeValues enc blockType v = Inr None"
  by (simp add: marshalAttributeValues_def)


lemma marshalAttributeValues_object:
  "\<exists>ret. marshalAttributeValues enc blockType (ObjectVal kvs) = Inr (Some ret) \<and>
     (\<forall>key. fmlookup ret key =
        (if skipped blockType key then None
         else map_option (\<lambda>v. RawMessage (fst (enc v))) (map_of (rev kvs) key)))"
proof -
  from marshalElements_object[of enc blockType kvs fmempty] obtain ret where
    r: "marshalElements enc blockType (map (\<lambda>(k, v). (StringVal k, v)) kvs) fmempty = Inr ret"
    and l: "\<forall>key. fmlookup ret key =
        (case map_of (rev kvs) key of
           Some v \<Rightarrow> if skipped blockType key then fmlookup fmempty key
                     else Some (RawMessage (fst (enc v)))
         | None \<Rightarrow> fmlookup fmempty key)"
    by blast
  from r have "marshalAttributeValues enc blockType (ObjectVal kvs) = Inr (Some ret)"
    by (simp add: marshalAttributeValues_def)
  moreover from l have "\<forall>key. fmlookup ret key =
        (if skipped blockType key then None
         else map_option (\<lambda>v. RawMessage (fst (enc v))) (map_of (rev kvs) key))"
    by (auto split: option.splits)
  ultimately show ?thesis by blast
qed

lemma marshalBlock_Children: "marshalBlock enc b jv = marshalChildren enc (Children b) jv"
  by (cases b) simp





lemma resourceValues_InrE:
  assumes "resourceValues enc b = Inr jv"
  obtains jv0 where "marshalAttributeValues enc (Type b) (Values b) = Inr jv0"
    and "marshalChildren enc (Children b) jv0 = Inr jv"
  using assms
  by (cases "marshalAttributeValues enc (Type b) (Values b)")
     (simp_all add: resourceValues_def marshalBlock_Children)


lemma marshalChildren_ConsE2:
  assumes "marshalChildren enc (c # cs) jv = Inr jv'"
  obtains m l where "jv = Some m"
    and "\<forall>raw. fmlookup m (Type c) \<noteq> Some (RawMessage raw)"
    and "length l = Suc (case fmlookup m (Type c) of Some (ChildValues l0) \<Rightarrow> length l0 | _ \<Rightarrow> 0)"
    and "marshalChildren enc cs (Some (fmupd (Type c) (ChildValues l) m)) = Inr jv'"
proof -
  from assms obtain childValues0 where a: "marshalAttributeValues enc (Type c) (Values c) = Inr childValues0"
    by (cases "marshalAttributeValues enc (Type c) (Values c)") simp_all
  let ?sub = "if length (Children c) > 0 then marshalBlock enc c childValues0 else Inr childValues0"
  from assms a obtain childValues where s: "?sub = Inr childValues"
    by (cases ?sub) simp_all
  from assms a s obtain m where m: "jv = Some m"
    by (cases jv) simp_all
  show thesis
  proof (cases "fmlookup m (Type c)")
    case None
    with assms a s m
    have "marshalChildren enc cs (Some (fmupd (Type c) (ChildValues [childValues]) m)) = Inr jv'"
      by simp
    with m None that[of m "[childValues]"] show thesis by simp
  next
    case (Some v)
    show thesis
    proof (cases v)
      case (RawMessage raw)
      with assms a s m Some show thesis by simp
    next
      case (ChildValues l)
      with assms a s m Some
      have "marshalChildren enc cs (Some (fmupd (Type c) (ChildValues (l @ [childValues])) m)) = Inr jv'"
        by simp
      with m Some ChildValues that[of m "l @ [childValues]"] show thesis by simp
    qed
  qed
qed

lemma marshalChildren_raw_kept:
  "marshalChildren enc cs (Some m) = Inr jv \<Longrightarrow> fmlookup m k = Some (RawMessage raw) \<Longrightarrow>
   \<exists>m'. jv = Some m' \<and> fmlookup m' k = Some (RawMessage raw)"
proof (induction cs arbitrary: m)
  case Nil
  then show ?case by auto
next
  case (Cons c cs)
  from Cons.prems(1) obtain l where
    nr: "\<forall>raw. fmlookup m (Type c) \<noteq> Some (RawMessage raw)"
    and rest: "marshalChildren enc cs (Some (fmupd (Type c) (ChildValues l) m)) = Inr jv"
    by (rule marshalChildren_ConsE2) simp
  from nr Cons.prems(2) have "Type c \<noteq> k" by auto
  with Cons.prems(2) have "fmlookup (fmupd (Type c) (ChildValues l) m) k = Some (RawMessage raw)"
    by simp
  from Cons.IH[OF rest this] show ?case .
qed


lemma resourceValues_records:
  assumes "resourceValues enc b = Inr jv" and "Values b = ObjectVal kvs"
    and "map_of (rev kvs) key = Some v" and "\<not> skipped (Type b) key"
  shows "\<exists>m. jv = Some m \<and> fmlookup m key = Some (RawMessage (fst (enc v)))"
proof -
  from assms(1) obtain jv0 where a: "marshalAttributeValues enc (Type b) (Values b) = Inr jv0"
    and c: "marshalChildren enc (Children b) jv0 = Inr jv"
    by (rule resourceValues_InrE)
  from marshalAttributeValues_object[of enc "Type b" kvs] obtain ret where
    r: "marshalAttributeValues enc (Type b) (ObjectVal kvs) = Inr (Some ret)"
    and l: "\<forall>key. fmlookup ret key =
        (if skipped (Type b) key then None
         else map_option (\<lambda>v. RawMessage (fst (enc v))) (map_of (rev kvs) key))"
    by blast
  from a r assms(2) have jv0: "jv0 = Some ret" by simp
  from l assms(3,4) have "fmlookup ret key = Some (RawMessage (fst (enc v)))" by simp
  from marshalChildren_raw_kept[OF c[unfolded jv0] this] show ?thesis .
qed


subsection \<open>The errors of the encoder\<close>

text \<open>
  The error that the encoder returns is never read: the value maps depend on the bytes it
  returns and on nothing else of it, and whether marshalling panics does not depend on the
  encoder at all.
\<close>

lemma marshalElements_shape:
  "fmrel (\<lambda>v v'. isRaw v = isRaw v') ret ret' \<Longrightarrow>
   rel_sum (=) (fmrel (\<lambda>v v'. isRaw v = isRaw v'))
     (marshalElements enc blockType it ret) (marshalElements enc' blockType it ret')"
proof (induction it arbitrary: ret ret')
  case Nil
  then show ?case by simp
next
  case (Cons kv it)
  obtain k v where kv: "kv = (k, v)" by (cases kv)
  obtain vJSON err where e: "enc v = (vJSON, err)" by (cases "enc v")
  obtain vJSON' err' where e': "enc' v = (vJSON', err')" by (cases "enc' v")
  show ?case
  proof (cases "AsString k")
    case (Inl p)
    with kv e e' show ?thesis by simp
  next
    case (Inr key)
    have up: "fmrel (\<lambda>v v'. isRaw v = isRaw v')
       (fmupd key (RawMessage vJSON) ret) (fmupd key (RawMessage vJSON') ret')"
      using Cons.prems by (intro fmrel_upd) (simp_all add: isRaw_def)
    show ?thesis
    proof (cases "(blockType = ''resource'' \<or> blockType = ''module'') \<and> key = ''count''")
      case True
      with kv e e' Inr Cons.IH[OF Cons.prems] show ?thesis by simp
    next
      case False
      then have "marshalElements enc blockType (kv # it) ret
            = marshalElements enc blockType it (fmupd key (RawMessage vJSON) ret)"
        and "marshalElements enc' blockType (kv # it) ret'
            = marshalElements enc' blockType it (fmupd key (RawMessage vJSON') ret')"
        using kv e e' Inr by auto
      with Cons.IH[OF up] show ?thesis by simp
    qed
  qed
qed

lemma marshalAttributeValues_shape:
  "rel_sum (=) sameShape (marshalAttributeValues enc blockType v) (marshalAttributeValues enc' blockType v)"
proof (cases "v = NilVal \<or> IsNull v")
  case True
  then show ?thesis by (simp add: marshalAttributeValues_def sameShape_def)
next
  case False
  show ?thesis
  proof (cases "ElementIterator v")
    case (Inl p)
    with False show ?thesis by (simp add: marshalAttributeValues_def)
  next
    case (Inr it)
    have "fmrel (\<lambda>v v'. isRaw v = isRaw v') fmempty fmempty" by simp
    from marshalElements_shape[OF this, of enc blockType it enc']
    show ?thesis using False Inr
      by (cases "marshalElements enc blockType it fmempty"; cases "marshalElements enc' blockType it fmempty")
         (simp_all add: marshalAttributeValues_def sameShape_def)
  qed
qed

lemma sameShape_Some:
  "sameShape (Some m) (Some m') \<longleftrightarrow> (\<forall>k. rel_option (\<lambda>v v'. isRaw v = isRaw v') (fmlookup m k) (fmlookup m' k))"
  by (simp add: sameShape_def fmrel_iff)

lemma sameShape_upd:
  "sameShape (Some m) (Some m') \<Longrightarrow>
   sameShape (Some (fmupd k (ChildValues l) m)) (Some (fmupd k (ChildValues l') m'))"
  by (simp add: sameShape_Some isRaw_def)

lemma marshalChildren_shape:
  assumes blocks: "\<And>c jv jv'. c \<in> set cs \<Longrightarrow> sameShape jv jv' \<Longrightarrow>
      rel_sum (=) sameShape (marshalBlock enc c jv) (marshalBlock enc' c jv')"
    and "sameShape jv jv'"
  shows "rel_sum (=) sameShape (marshalChildren enc cs jv) (marshalChildren enc' cs jv')"
  using assms
proof (induction cs arbitrary: jv jv')
  case Nil
  then show ?case by simp
next
  case (Cons c cs)
  have IH: "\<And>jv jv'. sameShape jv jv' \<Longrightarrow>
      rel_sum (=) sameShape (marshalChildren enc cs jv) (marshalChildren enc' cs jv')"
    using Cons.IH Cons.prems(1) by simp
  note a = marshalAttributeValues_shape[of enc "Type c" "Values c" enc']
  show ?case
  proof (cases "marshalAttributeValues enc (Type c) (Values c)")
    case (Inl p)
    with a have "marshalAttributeValues enc' (Type c) (Values c) = Inl p"
      by (cases "marshalAttributeValues enc' (Type c) (Values c)") simp_all
    with Inl show ?thesis by simp
  next
    case (Inr cv0)
    with a obtain cv0' where a': "marshalAttributeValues enc' (Type c) (Values c) = Inr cv0'"
      and s0: "sameShape cv0 cv0'"
      by (cases "marshalAttributeValues enc' (Type c) (Values c)") simp_all
    let ?sub = "if length (Children c) > 0 then marshalBlock enc c cv0 else Inr cv0"
    let ?sub' = "if length (Children c) > 0 then marshalBlock enc' c cv0' else Inr cv0'"
    have sub: "rel_sum (=) sameShape ?sub ?sub'"
      using Cons.prems(1)[of c cv0 cv0'] s0 by simp
    show ?thesis
    proof (cases ?sub)
      case (Inl p)
      with sub have "?sub' = Inl p" by (cases ?sub') simp_all
      with Inl Inr a' show ?thesis by simp
    next
      case sv: (Inr cv)
      with sub obtain cv' where sv': "?sub' = Inr cv'"
        by (cases ?sub') simp_all
      show ?thesis
      proof (cases jv)
        case None
        with Cons.prems(2) have "jv' = None" by (simp add: sameShape_def)
        with None Inr a' sv sv' show ?thesis by simp
      next
        case (Some m)
        with Cons.prems(2) obtain m' where m': "jv' = Some m'"
          by (cases jv') (simp_all add: sameShape_def)
        from Cons.prems(2) Some m' have mm: "sameShape (Some m) (Some m')" by simp
        then have look: "rel_option (\<lambda>v v'. isRaw v = isRaw v') (fmlookup m (Type c)) (fmlookup m' (Type c))"
          by (simp add: sameShape_Some)
        show ?thesis
        proof (cases "fmlookup m (Type c)")
          case None
          with look have n': "fmlookup m' (Type c) = None" by (cases "fmlookup m' (Type c)") simp_all
          have l: "marshalChildren enc (c # cs) jv
              = marshalChildren enc cs (Some (fmupd (Type c) (ChildValues [cv]) m))"
            using Inr sv Some None by simp
          have r: "marshalChildren enc' (c # cs) jv'
              = marshalChildren enc' cs (Some (fmupd (Type c) (ChildValues [cv']) m'))"
            using a' sv' m' n' by simp
          show ?thesis unfolding l r by (rule IH) (rule sameShape_upd[OF mm])
        next
          case (Some x)
          with look obtain x' where x': "fmlookup m' (Type c) = Some x'" and xx: "isRaw x = isRaw x'"
            by (cases "fmlookup m' (Type c)") simp_all
          show ?thesis
          proof (cases x)
            case (RawMessage raw)
            with xx obtain raw' where "x' = RawMessage raw'" by (cases x') (simp_all add: isRaw_def)
            with RawMessage Inr a' sv sv' \<open>jv = Some m\<close> m' Some x' show ?thesis by simp
          next
            case (ChildValues l)
            with xx obtain l' where cl': "x' = ChildValues l'" by (cases x') (simp_all add: isRaw_def)
            have l: "marshalChildren enc (c # cs) jv
                = marshalChildren enc cs (Some (fmupd (Type c) (ChildValues (l @ [cv])) m))"
              using Inr sv \<open>jv = Some m\<close> Some ChildValues by simp
            have r: "marshalChildren enc' (c # cs) jv'
                = marshalChildren enc' cs (Some (fmupd (Type c) (ChildValues (l' @ [cv'])) m'))"
              using a' sv' m' x' cl' by simp
            show ?thesis unfolding l r by (rule IH) (rule sameShape_upd[OF mm])
          qed
        qed
      qed
    qed
  qed
qed

lemma marshalBlock_shape:
  "sameShape jv jv' \<Longrightarrow> rel_sum (=) sameShape (marshalBlock enc b jv) (marshalBlock enc' b jv')"
proof (induction b arbitrary: jv jv')
  case (Block bt lbl nm full loc maddr hasm mname msrc prov attrs vals cs)
  show ?case
    unfolding marshalBlock.simps
    by (rule marshalChildren_shape) (use Block in auto)
qed

lemma resourceValues_shape:
  "rel_sum (=) sameShape (resourceValues enc b) (resourceValues enc' b)"
proof -
  note a = marshalAttributeValues_shape[of enc "Type b" "Values b" enc']
  show ?thesis
  proof (cases "marshalAttributeValues enc (Type b) (Values b)")
    case (Inl p)
    with a have "marshalAttributeValues enc' (Type b) (Values b) = Inl p"
      by (cases "marshalAttributeValues enc' (Type b) (Values b)") simp_all
    with Inl show ?thesis by (simp add: resourceValues_def)
  next
    case (Inr jv)
    with a obtain jv' where a': "marshalAttributeValues enc' (Type b) (Values b) = Inr jv'"
      and s: "sameShape jv jv'"
      by (cases "marshalAttributeValues enc' (Type b) (Values b)") simp_all
    from marshalBlock_shape[OF s] Inr a' show ?thesis by (simp add: resourceValues_def)
  qed
qed

lemma resourceValues_isl: "isl (resourceValues enc b) = isl (resourceValues enc' b)"
  using resourceValues_shape[of enc b enc']
  by (cases "resourceValues enc b"; cases "resourceValues enc' b") simp_all

lemma marshalElements_bytes:
  assumes "\<And>v. fst (enc v) = fst (enc' v)"
  shows "marshalElements enc blockType it ret = marshalElements enc' blockType it ret"
proof (induction it arbitrary: ret)
  case Nil
  then show ?case by simp
next
  case (Cons kv it)
  obtain k v where kv: "kv = (k, v)" by (cases kv)
  obtain vJSON err where e: "enc v = (vJSON, err)" by (cases "enc v")
  obtain vJSON' err' where e': "enc' v = (vJSON', err')" by (cases "enc' v")
  from assms[of v] e e' have same: "vJSON' = vJSON" by simp
  show ?case
    by (cases "AsString k") (simp_all add: kv e e' same Cons.IH)
qed

lemma marshalAttributeValues_bytes:
  assumes "\<And>v. fst (enc v) = fst (enc' v)"
  shows "marshalAttributeValues enc blockType v = marshalAttributeValues enc' blockType v"
  by (simp add: marshalAttributeValues_def marshalElements_bytes[OF assms] cong: sum.case_cong)

lemma marshalChildren_bytes:
  assumes enc: "\<And>v. fst (enc v) = fst (enc' v)"
    and blocks: "\<And>c jv. c \<in> set cs \<Longrightarrow> marshalBlock enc c jv = marshalBlock enc' c jv"
  shows "marshalChildren enc cs jv = marshalChildren enc' cs jv"
  using blocks
proof (induction cs arbitrary: jv)
  case Nil
  then show ?case by simp
next
  case (Cons c cs)
  have IH: "marshalChildren enc cs jv = marshalChildren enc' cs jv" for jv
    using Cons.IH Cons.prems by simp
  have b: "marshalBlock enc c jv = marshalBlock enc' c jv" for jv
    using Cons.prems by simp
  show ?case
    by (simp add: marshalAttributeValues_bytes[OF enc] b IH
        cong: if_cong sum.case_cong option.case_cong jsonValue.case_cong)
qed

lemma marshalBlock_bytes:
  assumes "\<And>v. fst (enc v) = fst (enc' v)"
  shows "marshalBlock enc b jv = marshalBlock enc' b jv"
proof (induction b arbitrary: jv)
  case (Block bt lbl nm full loc maddr hasm mname msrc prov attrs vals cs)
  show ?case
    unfolding marshalBlock.simps
    by (rule marshalChildren_bytes[OF assms]) (use Block in auto)
qed

lemma resourceValues_bytes:
  assumes "\<And>v. fst (enc v) = fst (enc' v)"
  shows "resourceValues enc b = resourceValues enc' b"
  by (simp add: resourceValues_def marshalAttributeValues_bytes[OF assms] marshalBlock_bytes[OF assms]
      cong: sum.case_cong)

subsection \<open>Reference extraction\<close>

text \<open>
  The loop over \<^verbatim>\<open>childExpressions\<close> writes every entry of the map, whatever the order, so
  the extraction does not depend on the order. For a block with an attribute the result is
  given entry by entry; for a block without attributes it is empty.
\<close>

lemma rangeLoop_lookup:
  "distinct (map fst l) \<Longrightarrow>
   fmlookup (rangeLoop l ev) k =
     (case map_of l k of Some v \<Rightarrow> Some (ChildExpressions v) | None \<Rightarrow> fmlookup ev k)"
proof (induction l arbitrary: ev)
  case Nil
  then show ?case by simp
next
  case (Cons p l)
  obtain name v where p: "p = (name, v)" by (cases p)
  from Cons.prems p have d: "distinct (map fst l)" and n: "name \<notin> fst ` set l" by auto
  from n have none: "map_of l name = None" by (simp add: map_of_eq_None_iff)
  show ?case
    using Cons.IH[OF d, of "fmupd name (ChildExpressions v) ev"] none p
    by (auto split: option.splits)
qed

lemma rangeLoop_admissible:
  "admissible ro \<Longrightarrow>
   fmlookup (rangeLoop (ro ce) ev) k =
     (case fmlookup ce k of Some v \<Rightarrow> Some (ChildExpressions v) | None \<Rightarrow> fmlookup ev k)"
  by (simp add: rangeLoop_lookup admissible_def admissible_map_of)

lemma rangeLoop_order:
  "admissible ro \<Longrightarrow> admissible ro' \<Longrightarrow> rangeLoop (ro ce) ev = rangeLoop (ro' ce) ev"
  by (rule fmap_ext) (simp add: rangeLoop_admissible)

lemma blockToReferences_order_aux:
  assumes "admissible ro" and "admissible ro'"
  shows "blockToReferences ro b = blockToReferences ro' b"
    and "attributesLoop ro as cs ev = attributesLoop ro' as cs ev"
    and "childrenLoop ro cs ce = childrenLoop ro' cs ce"
  using assms
proof (induction ro b and ro as cs ev and ro cs ce
    rule: blockToReferences_attributesLoop_childrenLoop.induct)
  case (1 ro bt lbl nm full loc maddr hasm mname msrc prov attrs vals cs)
  then show ?case by simp
next
  case (2 ro cs expressionValues)
  then show ?case by simp
next
  case (3 ro a rest cs expressionValues)
  let ?ev1 = "if 0 < length (AllReferences a)
              then fmupd (Name a) (refs (AllReferences a)) expressionValues
              else expressionValues"
  let ?ce = "childrenLoop ro cs fmempty"
  let ?ev2 = "if 0 < len ?ce then rangeLoop (ro ?ce) ?ev1 else ?ev1"
  have ce: "childrenLoop ro' cs fmempty = ?ce"
    using "3.IH"(1)[OF refl "3.prems"] by simp
  have r: "rangeLoop (ro' ?ce) ev = rangeLoop (ro ?ce) ev" for ev
    using rangeLoop_order[OF "3.prems"(2,1)] .
  have L: "attributesLoop ro (a # rest) cs expressionValues = attributesLoop ro rest cs ?ev2"
    by (simp add: Let_def)
  have R: "attributesLoop ro' (a # rest) cs expressionValues = attributesLoop ro' rest cs ?ev2"
    by (simp add: Let_def ce r)
  show ?case unfolding L R
    using "3.IH"(2)[OF refl refl refl "3.prems"] .
next
  case (4 ro childExpressions)
  then show ?case by simp
next
  case (5 ro child rest childExpressions)
  let ?vals = "case fmlookup childExpressions (Type child) of None \<Rightarrow> [] | Some v \<Rightarrow> v"
  let ?cr = "blockToReferences ro child"
  let ?ce = "if 0 < len ?cr then fmupd (Type child) (?vals @ [?cr]) childExpressions
             else childExpressions"
  have cr: "blockToReferences ro' child = ?cr"
    using "5.IH"(1)[OF refl "5.prems"] by simp
  have L: "childrenLoop ro (child # rest) childExpressions = childrenLoop ro rest ?ce"
    by (simp add: Let_def)
  have R: "childrenLoop ro' (child # rest) childExpressions = childrenLoop ro' rest ?ce"
    by (simp add: Let_def cr)
  show ?case unfolding L R
    using "5.IH"(2)[OF refl refl "5.prems"] .
qed

lemma childResults_Nil: "childResults ro k [] = []"
  by (simp add: childResults_def)

lemma childResults_Cons:
  "childResults ro k (c # cs) =
     (if Type c = k \<and> 0 < len (blockToReferences ro c) then [blockToReferences ro c] else [])
       @ childResults ro k cs"
  by (simp add: childResults_def)

lemma childrenLoop_lookup:
  "fmlookup (childrenLoop ro cs ce) k =
     (if childResults ro k cs = [] then fmlookup ce k
      else Some ((case fmlookup ce k of None \<Rightarrow> [] | Some v \<Rightarrow> v) @ childResults ro k cs))"
proof (induction cs arbitrary: ce)
  case Nil
  then show ?case by (simp add: childResults_Nil)
next
  case (Cons c cs)
  let ?vals = "case fmlookup ce (Type c) of None \<Rightarrow> [] | Some v \<Rightarrow> v"
  let ?cr = "blockToReferences ro c"
  let ?ce = "if 0 < len ?cr then fmupd (Type c) (?vals @ [?cr]) ce else ce"
  have step: "childrenLoop ro (c # cs) ce = childrenLoop ro cs ?ce"
    by (simp add: Let_def)
  show ?case unfolding step Cons.IH childResults_Cons
    by (auto split: option.splits)
qed

lemma lastReferencing_Nil: "lastReferencing k [] = None"
  by (simp add: lastReferencing_def)

lemma lastReferencing_Cons:
  "lastReferencing k (a # as) =
     (case lastReferencing k as of
        Some a' \<Rightarrow> Some a'
      | None \<Rightarrow> if Name a = k \<and> 0 < length (AllReferences a) then Some a else None)"
  by (simp add: lastReferencing_def split: list.splits)

lemma attributesLoop_lookup:
  assumes "admissible ro"
  shows "fmlookup (attributesLoop ro as cs ev) k =
     (if as = [] then fmlookup ev k
      else case childResults ro k cs of
             r # rs \<Rightarrow> Some (ChildExpressions (r # rs))
           | [] \<Rightarrow> (case lastReferencing k as of
                      Some a \<Rightarrow> Some (refs (AllReferences a))
                    | None \<Rightarrow> fmlookup ev k))"
proof (induction as arbitrary: ev)
  case Nil
  then show ?case by simp
next
  case (Cons a as)
  let ?ev1 = "if 0 < length (AllReferences a)
              then fmupd (Name a) (refs (AllReferences a)) ev else ev"
  let ?ce = "childrenLoop ro cs fmempty"
  let ?ev2 = "if 0 < len ?ce then rangeLoop (ro ?ce) ?ev1 else ?ev1"
  have step: "attributesLoop ro (a # as) cs ev = attributesLoop ro as cs ?ev2"
    by (simp add: Let_def)
  have ce: "fmlookup ?ce k = (case childResults ro k cs of [] \<Rightarrow> None | r # rs \<Rightarrow> Some (r # rs))"
    by (simp add: childrenLoop_lookup split: list.splits)
  have empty: "\<not> 0 < len ?ce \<Longrightarrow> fmlookup ?ce k = None"
    by (simp add: len_pos_iff)
  have ev2: "fmlookup ?ev2 k =
      (case fmlookup ?ce k of Some v \<Rightarrow> Some (ChildExpressions v) | None \<Rightarrow> fmlookup ?ev1 k)"
    using empty by (simp add: rangeLoop_admissible[OF assms])
  show ?case unfolding step Cons.IH ev2 ce lastReferencing_Cons
    by (auto simp: lastReferencing_Nil split: list.splits option.splits)
qed

lemma blockToReferences_Block:
  "blockToReferences ro b = attributesLoop ro (GetAttributes b) (Children b) fmempty"
  by (cases b) simp

lemma blockToReferences_no_attributes:
  "GetAttributes b = [] \<Longrightarrow> blockToReferences ro b = fmempty"
  by (simp add: blockToReferences_Block)

lemma blockToReferences_lookup:
  assumes "admissible ro" and "GetAttributes b \<noteq> []"
  shows "fmlookup (blockToReferences ro b) k =
     (case childResults ro k (Children b) of
        r # rs \<Rightarrow> Some (ChildExpressions (r # rs))
      | [] \<Rightarrow> map_option (\<lambda>a. refs (AllReferences a)) (lastReferencing k (GetAttributes b)))"
  using assms(2)
  by (simp add: blockToReferences_Block attributesLoop_lookup[OF assms(1)]
      split: list.splits option.splits)

subsection \<open>The loop over the provider blocks\<close>

text \<open>
  The first loop changes the provider configurations only. It returns the default key and
  records, under each name, the configuration of the last provider block of that name.
\<close>

lemma providerBlock_InrE:
  assumes "providerBlock b key sch = Inr (key', sch')"
  obtains name where "providerName b = Inr name" and "providerRegion b = Inr (regionOf b)"
    and "key' = (if key = '''' then name else key)"
    and "sch' = sch\<lparr>Configuration := (Configuration sch)
                      \<lparr>ProviderConfig :=
                         fmupd name (providerConfig name (regionOf b))
                           (ProviderConfig (Configuration sch))\<rparr>\<rparr>"
proof -
  from assms obtain name where n: "providerName b = Inr name"
    by (cases "providerName b") (simp_all add: providerBlock_def)
  from assms n obtain region where r: "providerRegion b = Inr region"
    by (cases "providerRegion b") (simp_all add: providerBlock_def)
  have ro: "regionOf b = region" using r by (simp add: regionOf_def)
  show thesis
  proof (rule that[of name])
    show "providerName b = Inr name" by (rule n)
    show "providerRegion b = Inr (regionOf b)" using r ro by simp
    show "key' = (if key = '''' then name else key)"
      using assms n r by (simp add: providerBlock_def)
    show "sch' = sch\<lparr>Configuration := (Configuration sch)
                      \<lparr>ProviderConfig :=
                         fmupd name (providerConfig name (regionOf b))
                           (ProviderConfig (Configuration sch))\<rparr>\<rparr>"
      using assms n r ro by (simp add: providerBlock_def)
  qed
qed

lemma providerLoop_ConsE:
  assumes "providerLoop (b # bs) key sch = Inr (key', sch')"
  obtains "Type b \<noteq> ''provider''" and "providerLoop bs key sch = Inr (key', sch')"
  | key1 sch1 where "Type b = ''provider''" and "providerBlock b key sch = Inr (key1, sch1)"
      and "providerLoop bs key1 sch1 = Inr (key', sch')"
  using assms by (cases "Type b = ''provider''"; cases "providerBlock b key sch") auto

lemma providerBlock_unchanged:
  assumes "providerBlock b key sch = Inr (key', sch')"
  shows "PlannedValues sch' = PlannedValues sch"
    and "ResourceChanges sch' = ResourceChanges sch"
    and "Configuration.RootModule (Configuration sch') = Configuration.RootModule (Configuration sch)"
proof -
  from assms obtain name where
    s: "sch' = sch\<lparr>Configuration := (Configuration sch)
                      \<lparr>ProviderConfig :=
                         fmupd name (providerConfig name (regionOf b))
                           (ProviderConfig (Configuration sch))\<rparr>\<rparr>"
    by (rule providerBlock_InrE)
  show "PlannedValues sch' = PlannedValues sch" by (simp add: s)
  show "ResourceChanges sch' = ResourceChanges sch" by (simp add: s)
  show "Configuration.RootModule (Configuration sch') = Configuration.RootModule (Configuration sch)"
    by (simp add: s)
qed

lemma providerLoop_PlannedValues:
  "providerLoop bs key sch = Inr (key', sch') \<Longrightarrow> PlannedValues sch' = PlannedValues sch"
proof (induction bs arbitrary: key sch)
  case Nil
  then show ?case by simp
next
  case (Cons b bs)
  from Cons.prems show ?case
  proof (cases rule: providerLoop_ConsE)
    case 1
    with Cons.IH[OF 1(2)] show ?thesis by simp
  next
    case (2 key1 sch1)
    with Cons.IH[OF 2(3)] providerBlock_unchanged(1)[OF 2(2)] show ?thesis by simp
  qed
qed

lemma providerLoop_ResourceChanges:
  "providerLoop bs key sch = Inr (key', sch') \<Longrightarrow> ResourceChanges sch' = ResourceChanges sch"
proof (induction bs arbitrary: key sch)
  case Nil
  then show ?case by simp
next
  case (Cons b bs)
  from Cons.prems show ?case
  proof (cases rule: providerLoop_ConsE)
    case 1
    with Cons.IH[OF 1(2)] show ?thesis by simp
  next
    case (2 key1 sch1)
    with Cons.IH[OF 2(3)] providerBlock_unchanged(2)[OF 2(2)] show ?thesis by simp
  qed
qed

lemma providerLoop_RootModule:
  "providerLoop bs key sch = Inr (key', sch') \<Longrightarrow>
   Configuration.RootModule (Configuration sch') = Configuration.RootModule (Configuration sch)"
proof (induction bs arbitrary: key sch)
  case Nil
  then show ?case by simp
next
  case (Cons b bs)
  from Cons.prems show ?case
  proof (cases rule: providerLoop_ConsE)
    case 1
    with Cons.IH[OF 1(2)] show ?thesis by simp
  next
    case (2 key1 sch1)
    with Cons.IH[OF 2(3)] providerBlock_unchanged(3)[OF 2(2)] show ?thesis by simp
  qed
qed

lemma providerLoop_plannedRoot:
  "providerLoop bs key sch = Inr (key', sch') \<Longrightarrow> plannedRoot sch' = plannedRoot sch"
  by (simp add: providerLoop_PlannedValues)

lemma providerLoop_childModules:
  "providerLoop bs key sch = Inr (key', sch') \<Longrightarrow> childModules sch' = childModules sch"
  by (simp add: providerLoop_PlannedValues)

lemma providerLoop_configResources:
  "providerLoop bs key sch = Inr (key', sch') \<Longrightarrow> configResources sch' = configResources sch"
  by (simp add: providerLoop_RootModule)

lemma providerLoop_moduleCalls:
  "providerLoop bs key sch = Inr (key', sch') \<Longrightarrow> moduleCalls sch' = moduleCalls sch"
  by (simp add: providerLoop_RootModule)

lemma defaultProviderKey_Cons:
  "defaultProviderKey (b # bs) =
     (if isProvider b \<and> providerName b \<noteq> Inr ''''
      then (case providerName b of Inr name \<Rightarrow> name | Inl p \<Rightarrow> '''')
      else defaultProviderKey bs)"
  by (simp add: defaultProviderKey_def)

lemma providerLoop_key:
  "providerLoop bs key sch = Inr (key', sch') \<Longrightarrow>
   key' = (if key = '''' then defaultProviderKey bs else key)"
proof (induction bs arbitrary: key sch)
  case Nil
  then show ?case by (simp add: defaultProviderKey_def)
next
  case (Cons b bs)
  from Cons.prems show ?case
  proof (cases rule: providerLoop_ConsE)
    case 1
    with Cons.IH[OF 1(2)] show ?thesis by (simp add: defaultProviderKey_Cons isProvider_def)
  next
    case (2 key1 sch1)
    from 2(2) obtain name where
      n: "providerName b = Inr name" and k: "key1 = (if key = '''' then name else key)"
      by (rule providerBlock_InrE)
    from Cons.IH[OF 2(3)] k n 2(1) show ?thesis
      by (simp add: defaultProviderKey_Cons isProvider_def)
  qed
qed

lemma recorded_Nil: "recorded name [] old = old"
  by (simp add: recorded_def lastProvider_def)

lemma recorded_Cons:
  "recorded name (b # bs) old =
     recorded name bs (if isProvider b \<and> providerName b = Inr name
                       then Some (providerConfig name (regionOf b)) else old)"
  by (simp add: recorded_def lastProvider_def split: list.splits)

lemma recorded_append: "recorded name (xs @ ys) old = recorded name ys (recorded name xs old)"
  by (induction xs arbitrary: old) (simp_all add: recorded_Nil recorded_Cons)

lemma recorded_non_provider:
  "recorded n (filter isProvider bs) old = recorded n bs old"
  by (induction bs arbitrary: old) (simp_all add: recorded_Nil recorded_Cons)

lemma providerLoop_providerConfigs:
  "providerLoop bs key sch = Inr (key', sch') \<Longrightarrow>
   fmlookup (providerConfigs sch') n = recorded n bs (fmlookup (providerConfigs sch) n)"
proof (induction bs arbitrary: key sch)
  case Nil
  then show ?case by (simp add: recorded_Nil)
next
  case (Cons b bs)
  from Cons.prems show ?case
  proof (cases rule: providerLoop_ConsE)
    case 1
    with Cons.IH[OF 1(2)] show ?thesis by (simp add: recorded_Cons isProvider_def)
  next
    case (2 key1 sch1)
    from 2(2) obtain name where
      n: "providerName b = Inr name" and
      s: "sch1 = sch\<lparr>Configuration := (Configuration sch)
                      \<lparr>ProviderConfig :=
                         fmupd name (providerConfig name (regionOf b))
                           (ProviderConfig (Configuration sch))\<rparr>\<rparr>"
      by (rule providerBlock_InrE)
    from s have "fmlookup (providerConfigs sch1) n =
        (if name = n then Some (providerConfig name (regionOf b)) else fmlookup (providerConfigs sch) n)"
      by simp
    with Cons.IH[OF 2(3)] n 2(1) show ?thesis
      by (auto simp: recorded_Cons isProvider_def)
  qed
qed

lemma providerLoop_succeeds:
  "providerLoop bs key sch = Inr r \<Longrightarrow> b \<in> set bs \<Longrightarrow> isProvider b \<Longrightarrow>
   (\<exists>name. providerName b = Inr name) \<and> providerRegion b = Inr (regionOf b)"
proof (induction bs arbitrary: key sch)
  case Nil
  then show ?case by simp
next
  case (Cons c cs)
  obtain key' sch' where r: "r = (key', sch')" by (cases r)
  from Cons.prems(1)[unfolded r] show ?case
  proof (cases rule: providerLoop_ConsE)
    case 1
    with Cons.prems(2,3) have "b \<in> set cs" by (auto simp: isProvider_def)
    from Cons.IH[OF 1(2)[folded r] this Cons.prems(3)] show ?thesis .
  next
    case (2 key1 sch1)
    show ?thesis
    proof (cases "b = c")
      case True
      from 2(2) show ?thesis unfolding True by (rule providerBlock_InrE) simp
    next
      case False
      with Cons.prems(2) have "b \<in> set cs" by simp
      from Cons.IH[OF 2(3)[folded r] this Cons.prems(3)] show ?thesis .
    qed
  qed
qed

lemma missing_region_is_empty:
  "GetAttribute b ''region'' = None \<Longrightarrow> providerRegion b = Inr ''''"
  by (simp add: providerRegion_def Value_of_def)

lemma providerLoop_runs:
  assumes "\<forall>b \<in> set bs. isProvider b \<longrightarrow> \<not> isl (providerName b) \<and> \<not> isl (providerRegion b)"
  shows "\<exists>r. providerLoop bs key sch = Inr r"
  using assms
proof (induction bs arbitrary: key sch)
  case Nil
  then show ?case by simp
next
  case (Cons b bs)
  show ?case
  proof (cases "Type b = ''provider''")
    case False
    with Cons show ?thesis by simp
  next
    case True
    with Cons.prems obtain name region where
      "providerName b = Inr name" "providerRegion b = Inr region"
      by (cases "providerName b"; cases "providerRegion b") (simp_all add: isProvider_def)
    then obtain key1 sch1 where "providerBlock b key sch = Inr (key1, sch1)"
      by (simp add: providerBlock_def)
    with Cons.IH[of key1 sch1] Cons.prems True show ?thesis by simp
  qed
qed

subsection \<open>The loop over the resource blocks\<close>

text \<open>
  The second loop appends one resource change per resource block, and one planned resource
  and one declaration at the root or in the module call, and leaves the provider
  configurations alone.
\<close>

lemma addRootResource_proj:
  "plannedRoot (addRootResource ro key b r sch) = plannedRoot sch @ [r]"
  "childModules (addRootResource ro key b r sch) = childModules sch"
  "configResources (addRootResource ro key b r sch) = configResources sch @ [rootResourceData ro key b]"
  "moduleCalls (addRootResource ro key b r sch) = moduleCalls sch"
  "providerConfigs (addRootResource ro key b r sch) = providerConfigs sch"
  "ResourceChanges (addRootResource ro key b r sch) = ResourceChanges sch"
  by (simp_all add: addRootResource_def Let_def)

lemma addModuleResource_proj:
  assumes "addModuleResource ro b r sch = Inr sch'"
  shows "plannedRoot sch' = plannedRoot sch"
    and "\<exists>cm cms. childModules sch = cm # cms \<and>
           childModules sch' = cm\<lparr>ChildModule.Resources := ChildModule.Resources cm @ [r]\<rparr> # cms"
    and "configResources sch' = configResources sch"
    and "moduleCalls sch' = fmupd (ModuleName b)
           (case fmlookup (moduleCalls sch) (ModuleName b) of
              Some mc \<Rightarrow> mc\<lparr>Module := (Module mc)\<lparr>ModuleCallModule.Resources :=
                   ModuleCallModule.Resources (Module mc) @ [moduleResourceData ro b]\<rparr>\<rparr>
            | None \<Rightarrow> \<lparr>Source = ModuleSource b,
                   Module = \<lparr>ModuleCallModule.Resources = [moduleResourceData ro b]\<rparr>\<rparr>)
           (moduleCalls sch)"
    and "providerConfigs sch' = providerConfigs sch"
    and "ResourceChanges sch' = ResourceChanges sch"
  using assms
  by (auto simp: addModuleResource_def Let_def split: list.splits option.splits)

lemma snapshot_Inr: "resourceValues enc b = Inr jv \<Longrightarrow> snapshot enc b = jv"
  by (simp add: snapshot_def)

lemma effectiveKey_Inr: "providerConfigKey key b = Inr k \<Longrightarrow> effectiveKey key b = k"
  by (simp add: effectiveKey_def)

lemma effectiveKey_alt:
  "effectiveKey key b =
     (case GetAttribute b ''provider'' of
        None \<Rightarrow> key
      | Some a \<Rightarrow> (case Value a of StringVal s \<Rightarrow> s | _ \<Rightarrow> key))"
proof (cases "GetAttribute b ''provider''")
  case None
  then show ?thesis by (simp add: effectiveKey_def providerConfigKey_def)
next
  case (Some a)
  then show ?thesis
    by (cases "Value a") (simp_all add: effectiveKey_def providerConfigKey_def Let_def)
qed

lemma effectiveKey_explicit:
  "effectiveKey key b = (case explicitProvider b of Some s \<Rightarrow> s | None \<Rightarrow> key)"
proof (cases "GetAttribute b ''provider''")
  case None
  then show ?thesis by (simp add: effectiveKey_alt explicitProvider_def)
next
  case (Some a)
  then show ?thesis by (cases "Value a") (simp_all add: effectiveKey_alt explicitProvider_def)
qed

lemma providerConfigKey_isl: "isl (providerConfigKey key b) = isl (providerConfigKey key' b)"
proof (cases "GetAttribute b ''provider''")
  case None
  then show ?thesis by (simp add: providerConfigKey_def)
next
  case (Some a)
  then show ?thesis by (simp add: providerConfigKey_def Let_def)
qed

lemma resourceBlock_InrE:
  assumes "resourceBlock ro enc key b sch = Inr sch'"
  obtains sch1 where "resourceValues enc b = Inr (snapshot enc b)"
    and "providerConfigKey key b = Inr (effectiveKey key b)"
    and "HasModuleBlock b \<Longrightarrow> addModuleResource ro b (resourceJSON b (snapshot enc b)) sch = Inr sch1"
    and "\<not> HasModuleBlock b \<Longrightarrow>
           sch1 = addRootResource ro (effectiveKey key b) b (resourceJSON b (snapshot enc b)) sch"
    and "sch' = sch1\<lparr>ResourceChanges := ResourceChanges sch1 @ [resourceChangesJSON b (snapshot enc b)]\<rparr>"
proof -
  from assms obtain jv where jv: "resourceValues enc b = Inr jv"
    by (cases "resourceValues enc b") (simp_all add: resourceBlock_def)
  from assms jv obtain k where k: "providerConfigKey key b = Inr k"
    by (cases "providerConfigKey key b") (simp_all add: resourceBlock_def Let_def)
  let ?r = "resourceJSON b jv"
  let ?step = "if HasModuleBlock b then addModuleResource ro b ?r sch
               else Inr (addRootResource ro k b ?r sch)"
  from assms jv k obtain sch1 where s1: "?step = Inr sch1"
    by (cases ?step) (simp_all add: resourceBlock_def Let_def)
  from assms jv k s1 have upd: "sch' = sch1\<lparr>ResourceChanges := ResourceChanges sch1 @ [resourceChangesJSON b jv]\<rparr>"
    by (simp add: resourceBlock_def Let_def)
  note sj = snapshot_Inr[OF jv] and ek = effectiveKey_Inr[OF k]
  show thesis
  proof (rule that[of sch1])
    show "resourceValues enc b = Inr (snapshot enc b)" using jv sj by simp
    show "providerConfigKey key b = Inr (effectiveKey key b)" using k ek by simp
    show "HasModuleBlock b \<Longrightarrow> addModuleResource ro b (resourceJSON b (snapshot enc b)) sch = Inr sch1"
      using s1 sj by simp
    show "\<not> HasModuleBlock b \<Longrightarrow>
           sch1 = addRootResource ro (effectiveKey key b) b (resourceJSON b (snapshot enc b)) sch"
      using s1 sj ek by simp
    show "sch' = sch1\<lparr>ResourceChanges := ResourceChanges sch1 @ [resourceChangesJSON b (snapshot enc b)]\<rparr>"
      using upd sj by simp
  qed
qed

lemma resourceBlock_proj:
  assumes "resourceBlock ro enc key b sch = Inr sch'"
  shows "ResourceChanges sch' = ResourceChanges sch @ [resourceChangesJSON b (snapshot enc b)]"
    and "plannedRoot sch' =
           plannedRoot sch @ (if HasModuleBlock b then [] else [resourceJSON b (snapshot enc b)])"
    and "configResources sch' =
           configResources sch @ (if HasModuleBlock b then [] else [rootResourceData ro (effectiveKey key b) b])"
    and "providerConfigs sch' = providerConfigs sch"
    and "\<not> HasModuleBlock b \<Longrightarrow> childModules sch' = childModules sch"
    and "\<not> HasModuleBlock b \<Longrightarrow> moduleCalls sch' = moduleCalls sch"
    and "HasModuleBlock b \<Longrightarrow> \<exists>cm cms. childModules sch = cm # cms \<and>
           childModules sch' =
             cm\<lparr>ChildModule.Resources := ChildModule.Resources cm @ [resourceJSON b (snapshot enc b)]\<rparr> # cms"
    and "HasModuleBlock b \<Longrightarrow> moduleCalls sch' = fmupd (ModuleName b)
           (case fmlookup (moduleCalls sch) (ModuleName b) of
              Some mc \<Rightarrow> mc\<lparr>Module := (Module mc)\<lparr>ModuleCallModule.Resources :=
                   ModuleCallModule.Resources (Module mc) @ [moduleResourceData ro b]\<rparr>\<rparr>
            | None \<Rightarrow> \<lparr>Source = ModuleSource b,
                   Module = \<lparr>ModuleCallModule.Resources = [moduleResourceData ro b]\<rparr>\<rparr>)
           (moduleCalls sch)"
proof -
  from resourceBlock_InrE[OF assms] obtain sch1 where
    m: "HasModuleBlock b \<Longrightarrow> addModuleResource ro b (resourceJSON b (snapshot enc b)) sch = Inr sch1"
    and r: "\<not> HasModuleBlock b \<Longrightarrow>
           sch1 = addRootResource ro (effectiveKey key b) b (resourceJSON b (snapshot enc b)) sch"
    and s: "sch' = sch1\<lparr>ResourceChanges := ResourceChanges sch1 @ [resourceChangesJSON b (snapshot enc b)]\<rparr>"
    by blast
  show "ResourceChanges sch' = ResourceChanges sch @ [resourceChangesJSON b (snapshot enc b)]"
    using s r m[THEN addModuleResource_proj(6)] by (cases "HasModuleBlock b") (simp_all add: addRootResource_proj)
  show "plannedRoot sch' =
           plannedRoot sch @ (if HasModuleBlock b then [] else [resourceJSON b (snapshot enc b)])"
    using s r m[THEN addModuleResource_proj(1)] by (cases "HasModuleBlock b") (simp_all add: addRootResource_proj)
  show "configResources sch' =
           configResources sch @ (if HasModuleBlock b then [] else [rootResourceData ro (effectiveKey key b) b])"
    using s r m[THEN addModuleResource_proj(3)] by (cases "HasModuleBlock b") (simp_all add: addRootResource_proj)
  show "providerConfigs sch' = providerConfigs sch"
    using s r m[THEN addModuleResource_proj(5)] by (cases "HasModuleBlock b") (simp_all add: addRootResource_proj)
  show "\<not> HasModuleBlock b \<Longrightarrow> childModules sch' = childModules sch"
    using s r by (simp add: addRootResource_proj)
  show "\<not> HasModuleBlock b \<Longrightarrow> moduleCalls sch' = moduleCalls sch"
    using s r by (simp add: addRootResource_proj)
  show "HasModuleBlock b \<Longrightarrow> \<exists>cm cms. childModules sch = cm # cms \<and>
           childModules sch' =
             cm\<lparr>ChildModule.Resources := ChildModule.Resources cm @ [resourceJSON b (snapshot enc b)]\<rparr> # cms"
    using s m[THEN addModuleResource_proj(2)] by simp
  show "HasModuleBlock b \<Longrightarrow> moduleCalls sch' = fmupd (ModuleName b)
           (case fmlookup (moduleCalls sch) (ModuleName b) of
              Some mc \<Rightarrow> mc\<lparr>Module := (Module mc)\<lparr>ModuleCallModule.Resources :=
                   ModuleCallModule.Resources (Module mc) @ [moduleResourceData ro b]\<rparr>\<rparr>
            | None \<Rightarrow> \<lparr>Source = ModuleSource b,
                   Module = \<lparr>ModuleCallModule.Resources = [moduleResourceData ro b]\<rparr>\<rparr>)
           (moduleCalls sch)"
    using s m[THEN addModuleResource_proj(4)] by simp
qed

lemma resourceLoop_ConsE:
  assumes "resourceLoop ro enc (b # bs) key sch = Inr sch'"
  obtains "Type b \<noteq> ''resource''" and "resourceLoop ro enc bs key sch = Inr sch'"
  | sch1 where "Type b = ''resource''" and "resourceBlock ro enc key b sch = Inr sch1"
      and "resourceLoop ro enc bs key sch1 = Inr sch'"
  using assms by (cases "Type b = ''resource''"; cases "resourceBlock ro enc key b sch") simp_all

lemma resourceLoop_ResourceChanges:
  "resourceLoop ro enc bs key sch = Inr sch' \<Longrightarrow>
   ResourceChanges sch' = ResourceChanges sch
     @ map (\<lambda>b. resourceChangesJSON b (snapshot enc b)) (filter isResource bs)"
proof (induction bs arbitrary: sch)
  case Nil
  then show ?case by simp
next
  case (Cons b bs)
  from Cons.prems show ?case
  proof (cases rule: resourceLoop_ConsE)
    case 1
    with Cons.IH show ?thesis by (simp add: isResource_def isRoot_def isNested_def)
  next
    case (2 sch1)
    with Cons.IH[OF 2(3)] resourceBlock_proj(1)[OF 2(2)] show ?thesis by (simp add: isResource_def isRoot_def isNested_def)
  qed
qed

lemma resourceLoop_plannedRoot:
  "resourceLoop ro enc bs key sch = Inr sch' \<Longrightarrow>
   plannedRoot sch' = plannedRoot sch
     @ map (\<lambda>b. resourceJSON b (snapshot enc b)) (filter isRoot bs)"
proof (induction bs arbitrary: sch)
  case Nil
  then show ?case by simp
next
  case (Cons b bs)
  from Cons.prems show ?case
  proof (cases rule: resourceLoop_ConsE)
    case 1
    with Cons.IH show ?thesis by (simp add: isResource_def isRoot_def isNested_def)
  next
    case (2 sch1)
    with Cons.IH[OF 2(3)] resourceBlock_proj(2)[OF 2(2)] show ?thesis by (simp add: isResource_def isRoot_def isNested_def)
  qed
qed

lemma resourceLoop_configResources:
  "resourceLoop ro enc bs key sch = Inr sch' \<Longrightarrow>
   configResources sch' = configResources sch
     @ map (\<lambda>b. rootResourceData ro (effectiveKey key b) b)
         (filter isRoot bs)"
proof (induction bs arbitrary: sch)
  case Nil
  then show ?case by simp
next
  case (Cons b bs)
  from Cons.prems show ?case
  proof (cases rule: resourceLoop_ConsE)
    case 1
    with Cons.IH show ?thesis by (simp add: isResource_def isRoot_def isNested_def)
  next
    case (2 sch1)
    with Cons.IH[OF 2(3)] resourceBlock_proj(3)[OF 2(2)] show ?thesis by (simp add: isResource_def isRoot_def isNested_def)
  qed
qed

lemma resourceLoop_providerConfigs:
  "resourceLoop ro enc bs key sch = Inr sch' \<Longrightarrow> providerConfigs sch' = providerConfigs sch"
proof (induction bs arbitrary: sch)
  case Nil
  then show ?case by simp
next
  case (Cons b bs)
  from Cons.prems show ?case
  proof (cases rule: resourceLoop_ConsE)
    case 1
    with Cons.IH show ?thesis by simp
  next
    case (2 sch1)
    with Cons.IH[OF 2(3)] resourceBlock_proj(4)[OF 2(2)] show ?thesis by simp
  qed
qed

lemma resourceLoop_childModules:
  "resourceLoop ro enc bs key sch = Inr sch' \<Longrightarrow> childModules sch = cm # cms \<Longrightarrow>
   childModules sch' =
     cm\<lparr>ChildModule.Resources := ChildModule.Resources cm
          @ map (\<lambda>b. resourceJSON b (snapshot enc b)) (filter isNested bs)\<rparr> # cms"
proof (induction bs arbitrary: sch cm)
  case Nil
  then show ?case by simp
next
  case (Cons b bs)
  from Cons.prems(1) show ?case
  proof (cases rule: resourceLoop_ConsE)
    case 1
    with Cons.IH[OF 1(2) Cons.prems(2)] show ?thesis by (simp add: isResource_def isRoot_def isNested_def)
  next
    case (2 sch1)
    show ?thesis
    proof (cases "HasModuleBlock b")
      case False
      with resourceBlock_proj(5)[OF 2(2)] Cons.prems(2) have "childModules sch1 = cm # cms" by simp
      from Cons.IH[OF 2(3) this] False show ?thesis by (simp add: isResource_def isRoot_def isNested_def)
    next
      case True
      with resourceBlock_proj(7)[OF 2(2)] Cons.prems(2)
      have "childModules sch1 =
          cm\<lparr>ChildModule.Resources := ChildModule.Resources cm @ [resourceJSON b (snapshot enc b)]\<rparr> # cms"
        by auto
      from Cons.IH[OF 2(3) this] True 2(1) show ?thesis by (simp add: isResource_def isRoot_def isNested_def)
    qed
  qed
qed

lemma extendCall_Nil: "extendCall ro [] old = old"
  by (cases old) (simp_all add: extendCall_def callOf_def)

lemma extendCall_Cons:
  "extendCall ro (b # bs) old = extendCall ro bs
     (Some (case old of
        Some mc \<Rightarrow> mc\<lparr>Module := (Module mc)\<lparr>ModuleCallModule.Resources :=
                   ModuleCallModule.Resources (Module mc) @ [moduleResourceData ro b]\<rparr>\<rparr>
      | None \<Rightarrow> \<lparr>Source = ModuleSource b,
                   Module = \<lparr>ModuleCallModule.Resources = [moduleResourceData ro b]\<rparr>\<rparr>))"
  by (cases old) (simp_all add: extendCall_def callOf_def)

lemma extendCall_append: "extendCall ro (xs @ ys) old = extendCall ro ys (extendCall ro xs old)"
proof (induction xs arbitrary: old)
  case Nil
  then show ?case by (simp add: extendCall_Nil)
next
  case (Cons x xs)
  show ?case unfolding append_Cons extendCall_Cons Cons.IH ..
qed

lemma resourceLoop_moduleCalls:
  "resourceLoop ro enc bs key sch = Inr sch' \<Longrightarrow>
   fmlookup (moduleCalls sch') n =
     extendCall ro (filter (\<lambda>b. isNested b \<and> ModuleName b = n) bs) (fmlookup (moduleCalls sch) n)"
proof (induction bs arbitrary: sch)
  case Nil
  then show ?case by (simp add: extendCall_Nil)
next
  case (Cons b bs)
  from Cons.prems show ?case
  proof (cases rule: resourceLoop_ConsE)
    case 1
    with Cons.IH show ?thesis by (simp add: isNested_def)
  next
    case (2 sch1)
    show ?thesis
    proof (cases "HasModuleBlock b")
      case False
      with resourceBlock_proj(6)[OF 2(2)] Cons.IH[OF 2(3)] show ?thesis by (simp add: isNested_def)
    next
      case True
      note upd = resourceBlock_proj(8)[OF 2(2) True]
      show ?thesis
      proof (cases "ModuleName b = n")
        case False
        with upd have "fmlookup (moduleCalls sch1) n = fmlookup (moduleCalls sch) n" by simp
        with Cons.IH[OF 2(3)] False show ?thesis by (simp add: isNested_def)
      next
        case same: True
        with upd True 2(1) Cons.IH[OF 2(3), of ] show ?thesis
          by (simp add: isNested_def extendCall_Cons)
      qed
    qed
  qed
qed

lemma resourceLoop_succeeds:
  "resourceLoop ro enc bs key sch = Inr sch' \<Longrightarrow> b \<in> set bs \<Longrightarrow> isResource b \<Longrightarrow>
   resourceValues enc b = Inr (snapshot enc b) \<and> providerConfigKey key b = Inr (effectiveKey key b)"
proof (induction bs arbitrary: sch)
  case Nil
  then show ?case by simp
next
  case (Cons c cs)
  from Cons.prems(1) show ?case
  proof (cases rule: resourceLoop_ConsE)
    case 1
    with Cons.prems(2,3) have "b \<in> set cs" by (auto simp: isResource_def)
    from Cons.IH[OF 1(2) this Cons.prems(3)] show ?thesis .
  next
    case (2 sch1)
    show ?thesis
    proof (cases "b = c")
      case True
      from 2(2) show ?thesis unfolding True by (rule resourceBlock_InrE) simp
    next
      case False
      with Cons.prems(2) have "b \<in> set cs" by simp
      from Cons.IH[OF 2(3) this Cons.prems(3)] show ?thesis .
    qed
  qed
qed

lemma addModuleResource_runs:
  "childModules sch \<noteq> [] \<Longrightarrow> \<exists>sch'. addModuleResource ro b r sch = Inr sch'"
  by (cases "childModules sch") (simp_all add: addModuleResource_def Let_def)

lemma resourceBlock_runs:
  assumes "\<not> isl (resourceValues enc b)" and "\<not> isl (providerConfigKey key b)"
    and "childModules sch \<noteq> []"
  shows "\<exists>sch'. resourceBlock ro enc key b sch = Inr sch' \<and> childModules sch' \<noteq> []"
proof -
  from assms(1) obtain jv where jv: "resourceValues enc b = Inr jv"
    by (cases "resourceValues enc b") simp_all
  from assms(2) obtain k where k: "providerConfigKey key b = Inr k"
    by (cases "providerConfigKey key b") simp_all
  have "\<exists>sch'. resourceBlock ro enc key b sch = Inr sch'"
  proof (cases "HasModuleBlock b")
    case True
    from addModuleResource_runs[OF assms(3), of ro b "resourceJSON b jv"] obtain sch1 where
      "addModuleResource ro b (resourceJSON b jv) sch = Inr sch1" ..
    with True jv k show ?thesis by (simp add: resourceBlock_def Let_def)
  next
    case False
    with jv k show ?thesis by (simp add: resourceBlock_def Let_def)
  qed
  then obtain sch' where r: "resourceBlock ro enc key b sch = Inr sch'" ..
  have "childModules sch' \<noteq> []"
  proof (cases "HasModuleBlock b")
    case True
    from resourceBlock_proj(7)[OF r True] show ?thesis by auto
  next
    case False
    from resourceBlock_proj(5)[OF r False] assms(3) show ?thesis by simp
  qed
  with r show ?thesis by simp
qed

lemma resourceLoop_runs:
  assumes "\<forall>b \<in> set bs. isResource b \<longrightarrow>
             \<not> isl (resourceValues enc b) \<and> \<not> isl (providerConfigKey key b)"
    and "childModules sch \<noteq> []"
  shows "\<exists>sch'. resourceLoop ro enc bs key sch = Inr sch' \<and> childModules sch' \<noteq> []"
  using assms
proof (induction bs arbitrary: sch)
  case Nil
  then show ?case by simp
next
  case (Cons b bs)
  show ?case
  proof (cases "Type b = ''resource''")
    case False
    with Cons show ?thesis by simp
  next
    case True
    with Cons.prems(1) have "\<not> isl (resourceValues enc b)" "\<not> isl (providerConfigKey key b)"
      by (simp_all add: isResource_def)
    from resourceBlock_runs[OF this Cons.prems(2), of ro] obtain sch1 where
      s: "resourceBlock ro enc key b sch = Inr sch1" and c: "childModules sch1 \<noteq> []" by auto
    from Cons.prems(1) have "\<forall>b \<in> set bs. isResource b \<longrightarrow>
             \<not> isl (resourceValues enc b) \<and> \<not> isl (providerConfigKey key b)" by simp
    from Cons.IH[OF this c] True s show ?thesis by simp
  qed
qed

lemma resourceBlock_order:
  assumes "admissible ro" and "admissible ro'"
  shows "resourceBlock ro enc key b sch = resourceBlock ro' enc key b sch"
proof -
  note refs = blockToReferences_order_aux(1)[OF assms]
  have m: "moduleResourceData ro b = moduleResourceData ro' b"
    by (simp add: moduleResourceData_def refs)
  have r: "rootResourceData ro k b = rootResourceData ro' k b" for k
    by (simp add: rootResourceData_def refs)
  have am: "addModuleResource ro b r sch = addModuleResource ro' b r sch" for r
    by (simp add: addModuleResource_def m)
  have ar: "addRootResource ro k b r sch = addRootResource ro' k b r sch" for k r
    by (simp add: addRootResource_def r)
  show ?thesis
    by (cases "HasModuleBlock b") (simp_all add: resourceBlock_def am ar Let_def cong: sum.case_cong)
qed

lemma resourceLoop_order:
  assumes "admissible ro" and "admissible ro'"
  shows "resourceLoop ro enc bs key sch = resourceLoop ro' enc bs key sch"
proof (induction bs arbitrary: sch)
  case Nil
  then show ?case by simp
next
  case (Cons b bs)
  show ?case
  proof (cases "resourceBlock ro' enc key b sch")
    case (Inl p)
    then show ?thesis using Cons.IH by (simp add: resourceBlock_order[OF assms])
  next
    case (Inr sch1)
    then show ?thesis using Cons.IH by (simp add: resourceBlock_order[OF assms])
  qed
qed

lemma resourceBlock_bytes:
  assumes "\<And>v. fst (enc v) = fst (enc' v)"
  shows "resourceBlock ro enc key b sch = resourceBlock ro enc' key b sch"
  by (simp add: resourceBlock_def resourceValues_bytes[OF assms])

lemma resourceLoop_bytes:
  assumes "\<And>v. fst (enc v) = fst (enc' v)"
  shows "resourceLoop ro enc bs key sch = resourceLoop ro enc' bs key sch"
proof (induction bs arbitrary: sch)
  case Nil
  then show ?case by simp
next
  case (Cons b bs)
  show ?case
  proof (cases "resourceBlock ro enc' key b sch")
    case (Inl p)
    then show ?thesis using Cons.IH by (simp add: resourceBlock_bytes[OF assms])
  next
    case (Inr sch1)
    then show ?thesis using Cons.IH by (simp add: resourceBlock_bytes[OF assms])
  qed
qed

subsection \<open>The assembled document\<close>

text \<open>
  Every part of the document that \<^verbatim>\<open>modulesToPlanJSON\<close> returns, in terms of the blocks of
  the input; the inputs on which it returns a document; and its independence of the order of
  \<^verbatim>\<open>range\<close>.
\<close>

lemma isRoot_isResource: "isRoot b \<Longrightarrow> isResource b"
  by (simp add: isRoot_def isResource_def)

lemma isNested_isResource: "isNested b \<Longrightarrow> isResource b"
  by (simp add: isNested_def isResource_def)

lemma resource_split:
  "length (filter isRoot bs) + length (filter isNested bs) = length (filter isResource bs)"
  by (induction bs) (auto simp: isRoot_def isNested_def isResource_def)

lemma modulesLoop_ConsE:
  assumes "modulesLoop ro enc (m # ms) sch = Inr sch'"
  obtains key sch1 sch2 where "providerLoop (Blocks m) '''' sch = Inr (key, sch1)"
    and "resourceLoop ro enc (Blocks m) key sch1 = Inr sch2"
    and "modulesLoop ro enc ms sch2 = Inr sch'"
proof -
  from assms obtain key sch1 where p: "providerLoop (Blocks m) '''' sch = Inr (key, sch1)"
    by (cases "providerLoop (Blocks m) '''' sch") auto
  from assms p obtain sch2 where r: "resourceLoop ro enc (Blocks m) key sch1 = Inr sch2"
    by (cases "resourceLoop ro enc (Blocks m) key sch1") auto
  from assms p r have "modulesLoop ro enc ms sch2 = Inr sch'" by simp
  with p r that show thesis by blast
qed

lemma modulesLoop_ResourceChanges:
  "modulesLoop ro enc ms sch = Inr sch' \<Longrightarrow>
   ResourceChanges sch' = ResourceChanges sch
     @ map (\<lambda>b. resourceChangesJSON b (snapshot enc b)) (filter isResource (allBlocks ms))"
proof (induction ms arbitrary: sch)
  case Nil
  then show ?case by (simp add: allBlocks_def)
next
  case (Cons m ms)
  from Cons.prems obtain key sch1 sch2 where
    p: "providerLoop (Blocks m) '''' sch = Inr (key, sch1)"
    and r: "resourceLoop ro enc (Blocks m) key sch1 = Inr sch2"
    and l: "modulesLoop ro enc ms sch2 = Inr sch'"
    by (rule modulesLoop_ConsE)
  from Cons.IH[OF l] resourceLoop_ResourceChanges[OF r] providerLoop_ResourceChanges[OF p]
  show ?case by (simp add: allBlocks_def)
qed

lemma modulesLoop_plannedRoot:
  "modulesLoop ro enc ms sch = Inr sch' \<Longrightarrow>
   plannedRoot sch' = plannedRoot sch
     @ map (\<lambda>b. resourceJSON b (snapshot enc b)) (filter isRoot (allBlocks ms))"
proof (induction ms arbitrary: sch)
  case Nil
  then show ?case by (simp add: allBlocks_def)
next
  case (Cons m ms)
  from Cons.prems obtain key sch1 sch2 where
    p: "providerLoop (Blocks m) '''' sch = Inr (key, sch1)"
    and r: "resourceLoop ro enc (Blocks m) key sch1 = Inr sch2"
    and l: "modulesLoop ro enc ms sch2 = Inr sch'"
    by (rule modulesLoop_ConsE)
  from Cons.IH[OF l] resourceLoop_plannedRoot[OF r] providerLoop_plannedRoot[OF p]
  show ?case by (simp add: allBlocks_def)
qed

lemma modulesLoop_childModules:
  "modulesLoop ro enc ms sch = Inr sch' \<Longrightarrow> childModules sch = cm # cms \<Longrightarrow>
   childModules sch' =
     cm\<lparr>ChildModule.Resources := ChildModule.Resources cm
          @ map (\<lambda>b. resourceJSON b (snapshot enc b)) (filter isNested (allBlocks ms))\<rparr> # cms"
proof (induction ms arbitrary: sch cm)
  case Nil
  then show ?case by (simp add: allBlocks_def)
next
  case (Cons m ms)
  from Cons.prems(1) obtain key sch1 sch2 where
    p: "providerLoop (Blocks m) '''' sch = Inr (key, sch1)"
    and r: "resourceLoop ro enc (Blocks m) key sch1 = Inr sch2"
    and l: "modulesLoop ro enc ms sch2 = Inr sch'"
    by (rule modulesLoop_ConsE)
  from providerLoop_childModules[OF p] Cons.prems(2) have "childModules sch1 = cm # cms" by simp
  from resourceLoop_childModules[OF r this] Cons.IH[OF l]
  show ?case by (simp add: allBlocks_def)
qed

lemma modulesLoop_configResources:
  "modulesLoop ro enc ms sch = Inr sch' \<Longrightarrow>
   configResources sch' = configResources sch @ concat (map (rootDeclarations ro) ms)"
proof (induction ms arbitrary: sch)
  case Nil
  then show ?case by simp
next
  case (Cons m ms)
  from Cons.prems obtain key sch1 sch2 where
    p: "providerLoop (Blocks m) '''' sch = Inr (key, sch1)"
    and r: "resourceLoop ro enc (Blocks m) key sch1 = Inr sch2"
    and l: "modulesLoop ro enc ms sch2 = Inr sch'"
    by (rule modulesLoop_ConsE)
  from providerLoop_key[OF p] have "key = defaultProviderKey (Blocks m)" by simp
  with Cons.IH[OF l] resourceLoop_configResources[OF r] providerLoop_configResources[OF p]
  show ?case by (simp add: rootDeclarations_def)
qed

lemma modulesLoop_moduleCalls:
  "modulesLoop ro enc ms sch = Inr sch' \<Longrightarrow>
   fmlookup (moduleCalls sch') n =
     extendCall ro (filter (\<lambda>b. isNested b \<and> ModuleName b = n) (allBlocks ms))
       (fmlookup (moduleCalls sch) n)"
proof (induction ms arbitrary: sch)
  case Nil
  then show ?case by (simp add: allBlocks_def extendCall_Nil)
next
  case (Cons m ms)
  from Cons.prems obtain key sch1 sch2 where
    p: "providerLoop (Blocks m) '''' sch = Inr (key, sch1)"
    and r: "resourceLoop ro enc (Blocks m) key sch1 = Inr sch2"
    and l: "modulesLoop ro enc ms sch2 = Inr sch'"
    by (rule modulesLoop_ConsE)
  from Cons.IH[OF l] resourceLoop_moduleCalls[OF r] providerLoop_moduleCalls[OF p]
  show ?case by (simp add: allBlocks_def extendCall_append)
qed

lemma modulesLoop_providerConfigs:
  "modulesLoop ro enc ms sch = Inr sch' \<Longrightarrow>
   fmlookup (providerConfigs sch') n = recorded n (allBlocks ms) (fmlookup (providerConfigs sch) n)"
proof (induction ms arbitrary: sch)
  case Nil
  then show ?case by (simp add: allBlocks_def recorded_Nil)
next
  case (Cons m ms)
  from Cons.prems obtain key sch1 sch2 where
    p: "providerLoop (Blocks m) '''' sch = Inr (key, sch1)"
    and r: "resourceLoop ro enc (Blocks m) key sch1 = Inr sch2"
    and l: "modulesLoop ro enc ms sch2 = Inr sch'"
    by (rule modulesLoop_ConsE)
  from Cons.IH[OF l] resourceLoop_providerConfigs[OF r] providerLoop_providerConfigs[OF p]
  show ?case by (simp add: allBlocks_def recorded_append)
qed

lemma modulesToPlanJSON_document:
  assumes "modulesToPlanJSON ro enc modules = Inr sch"
  shows "ResourceChanges sch =
           map (\<lambda>b. resourceChangesJSON b (snapshot enc b)) (filter isResource (allBlocks modules))"
    and "plannedRoot sch =
           map (\<lambda>b. resourceJSON b (snapshot enc b)) (filter isRoot (allBlocks modules))"
    and "childModules sch =
           [\<lparr>ChildModule.Resources =
               map (\<lambda>b. resourceJSON b (snapshot enc b)) (filter isNested (allBlocks modules))\<rparr>]"
    and "configResources sch = concat (map (rootDeclarations ro) modules)"
    and "fmlookup (moduleCalls sch) n = callOf ro (nestedIn n modules)"
    and "fmlookup (providerConfigs sch) n = recorded n (allBlocks modules) None"
proof -
  from assms have l: "modulesLoop ro enc modules emptyPlan = Inr sch"
    by (simp add: modulesToPlanJSON_def)
  show "ResourceChanges sch =
           map (\<lambda>b. resourceChangesJSON b (snapshot enc b)) (filter isResource (allBlocks modules))"
    using modulesLoop_ResourceChanges[OF l] by (simp add: emptyPlan_def)
  show "plannedRoot sch =
           map (\<lambda>b. resourceJSON b (snapshot enc b)) (filter isRoot (allBlocks modules))"
    using modulesLoop_plannedRoot[OF l] by (simp add: emptyPlan_def)
  have "childModules emptyPlan = \<lparr>ChildModule.Resources = []\<rparr> # []"
    by (simp add: emptyPlan_def)
  from modulesLoop_childModules[OF l this]
  show "childModules sch =
           [\<lparr>ChildModule.Resources =
               map (\<lambda>b. resourceJSON b (snapshot enc b)) (filter isNested (allBlocks modules))\<rparr>]"
    by simp
  show "configResources sch = concat (map (rootDeclarations ro) modules)"
    using modulesLoop_configResources[OF l] by (simp add: emptyPlan_def)
  show "fmlookup (moduleCalls sch) n = callOf ro (nestedIn n modules)"
    using modulesLoop_moduleCalls[OF l, of n] by (simp add: emptyPlan_def extendCall_def nestedIn_def)
  show "fmlookup (providerConfigs sch) n = recorded n (allBlocks modules) None"
    using modulesLoop_providerConfigs[OF l, of n] by (simp add: emptyPlan_def)
qed

lemma rootDeclarations_keys:
  "map ProviderConfigKey (rootDeclarations ro m) =
     map (\<lambda>b. case explicitProvider b of Some s \<Rightarrow> s | None \<Rightarrow> defaultProviderKey (Blocks m))
       (filter isRoot (Blocks m))"
  by (simp add: rootDeclarations_def rootResourceData_def comp_def effectiveKey_explicit)

lemma modulesLoop_succeeds:
  assumes "modulesLoop ro enc ms sch = Inr sch'" and "b \<in> set (allBlocks ms)"
  shows "isResource b \<Longrightarrow> resourceValues enc b = Inr (snapshot enc b)"
    and "isProvider b \<Longrightarrow> (\<exists>name. providerName b = Inr name) \<and> providerRegion b = Inr (regionOf b)"
  using assms
proof (induction ms arbitrary: sch)
  case Nil
  { case 1 then show ?case by (simp add: allBlocks_def) }
  { case 2 then show ?case by (simp add: allBlocks_def) }
next
  case (Cons m ms)
  { case 1
    from 1(2) obtain key sch1 sch2 where
      p: "providerLoop (Blocks m) '''' sch = Inr (key, sch1)"
      and r: "resourceLoop ro enc (Blocks m) key sch1 = Inr sch2"
      and l: "modulesLoop ro enc ms sch2 = Inr sch'"
      by (rule modulesLoop_ConsE)
    from 1(3) consider "b \<in> set (Blocks m)" | "b \<in> set (allBlocks ms)"
      by (auto simp: allBlocks_def)
    then show ?case
    proof cases
      case 1
      from resourceLoop_succeeds[OF r 1 \<open>isResource b\<close>] show ?thesis by simp
    next
      case 2
      from Cons.IH(1)[OF \<open>isResource b\<close> l 2] show ?thesis .
    qed }
  { case 2
    from 2(2) obtain key sch1 sch2 where
      p: "providerLoop (Blocks m) '''' sch = Inr (key, sch1)"
      and r: "resourceLoop ro enc (Blocks m) key sch1 = Inr sch2"
      and l: "modulesLoop ro enc ms sch2 = Inr sch'"
      by (rule modulesLoop_ConsE)
    from 2(3) consider "b \<in> set (Blocks m)" | "b \<in> set (allBlocks ms)"
      by (auto simp: allBlocks_def)
    then show ?case
    proof cases
      case 1
      from providerLoop_succeeds[OF p 1 \<open>isProvider b\<close>] show ?thesis .
    next
      case 2
      from Cons.IH(2)[OF \<open>isProvider b\<close> l 2] show ?thesis .
    qed }
qed

lemma modulesLoop_succeeds_key:
  assumes "modulesLoop ro enc ms sch = Inr sch'" and "b \<in> set (allBlocks ms)"
    and "isResource b"
  shows "\<not> isl (providerConfigKey k b)"
  using assms(1,2)
proof (induction ms arbitrary: sch)
  case Nil
  then show ?case by (simp add: allBlocks_def)
next
  case (Cons m ms)
  from Cons.prems(1) obtain key sch1 sch2 where
    r: "resourceLoop ro enc (Blocks m) key sch1 = Inr sch2"
    and l: "modulesLoop ro enc ms sch2 = Inr sch'"
    by (rule modulesLoop_ConsE)
  from Cons.prems(2) consider "b \<in> set (Blocks m)" | "b \<in> set (allBlocks ms)"
    by (auto simp: allBlocks_def)
  then show ?case
  proof cases
    case 1
    from resourceLoop_succeeds[OF r 1 assms(3)] have "\<not> isl (providerConfigKey key b)" by simp
    then show ?thesis using providerConfigKey_isl[of key b k] by simp
  next
    case 2
    from Cons.IH[OF l 2] show ?thesis .
  qed
qed

lemma modulesToPlanJSON_succeeds:
  assumes "modulesToPlanJSON ro enc modules = Inr sch" and "b \<in> set (allBlocks modules)"
  shows "isResource b \<Longrightarrow> resourceValues enc b = Inr (snapshot enc b)"
    and "isProvider b \<Longrightarrow> (\<exists>name. providerName b = Inr name) \<and> providerRegion b = Inr (regionOf b)"
  using assms modulesLoop_succeeds[of ro enc modules emptyPlan sch b]
  by (simp_all add: modulesToPlanJSON_def)

lemma document_snapshots:
  assumes "modulesToPlanJSON ro enc modules = Inr sch"
  shows "r \<in> set (plannedRoot sch) \<union> set (concat (map ChildModule.Resources (childModules sch)))
         \<Longrightarrow> \<exists>b. Type b = ''resource'' \<and> resourceValues enc b = Inr (ResourceJSON.Values r)"
    and "c \<in> set (ResourceChanges sch)
         \<Longrightarrow> \<exists>b. Type b = ''resource'' \<and> resourceValues enc b = Inr (After (Change c))"
proof -
  note doc = modulesToPlanJSON_document[OF assms]
  note ok = modulesToPlanJSON_succeeds(1)[OF assms]
  show "\<exists>b. Type b = ''resource'' \<and> resourceValues enc b = Inr (ResourceJSON.Values r)"
    if "r \<in> set (plannedRoot sch) \<union> set (concat (map ChildModule.Resources (childModules sch)))"
  proof -
    from that doc(2,3) obtain b where b: "b \<in> set (allBlocks modules)" "isRoot b \<or> isNested b"
      and r: "r = resourceJSON b (snapshot enc b)"
      by auto
    from b(2) have res: "isResource b" using isRoot_isResource isNested_isResource by blast
    from ok[OF b(1) res] r res show ?thesis by (auto simp: resourceJSON_def isResource_def)
  qed
  show "\<exists>b. Type b = ''resource'' \<and> resourceValues enc b = Inr (After (Change c))"
    if "c \<in> set (ResourceChanges sch)"
  proof -
    from that doc(1) obtain b where b: "b \<in> set (allBlocks modules)" "isResource b"
      and c: "c = resourceChangesJSON b (snapshot enc b)"
      by auto
    from ok[OF b] c b(2) show ?thesis by (auto simp: resourceChangesJSON_def isResource_def)
  qed
qed

lemma modulesLoop_runs:
  assumes "runs enc ms" and "childModules sch \<noteq> []"
  shows "\<exists>sch'. modulesLoop ro enc ms sch = Inr sch'"
  using assms
proof (induction ms arbitrary: sch)
  case Nil
  then show ?case by simp
next
  case (Cons m ms)
  from Cons.prems(1) have
    p: "\<forall>b \<in> set (Blocks m). isProvider b \<longrightarrow> \<not> isl (providerName b) \<and> \<not> isl (providerRegion b)"
    and r0: "\<forall>b \<in> set (Blocks m). isResource b \<longrightarrow>
             \<not> isl (resourceValues enc b) \<and> \<not> isl (providerConfigKey '''' b)"
    and rest: "runs enc ms"
    by (simp_all add: runs_def allBlocks_def)
  from providerLoop_runs[OF p, of "''''" sch] obtain key sch1 where
    pl: "providerLoop (Blocks m) '''' sch = Inr (key, sch1)" by force
  from r0 have r: "\<forall>b \<in> set (Blocks m). isResource b \<longrightarrow>
             \<not> isl (resourceValues enc b) \<and> \<not> isl (providerConfigKey key b)"
    using providerConfigKey_isl[of key _ "''''"] by simp
  from providerLoop_childModules[OF pl] Cons.prems(2) have "childModules sch1 \<noteq> []" by simp
  from resourceLoop_runs[OF r this, of ro] obtain sch2 where
    rl: "resourceLoop ro enc (Blocks m) key sch1 = Inr sch2" and c: "childModules sch2 \<noteq> []"
    by auto
  from Cons.IH[OF rest c] pl rl show ?case by simp
qed

lemma modulesToPlanJSON_runs_iff:
  "(\<exists>sch. modulesToPlanJSON ro enc modules = Inr sch) \<longleftrightarrow> runs enc modules"
proof
  assume "\<exists>sch. modulesToPlanJSON ro enc modules = Inr sch"
  then obtain sch where run: "modulesToPlanJSON ro enc modules = Inr sch" ..
  then have l: "modulesLoop ro enc modules emptyPlan = Inr sch" by (simp add: modulesToPlanJSON_def)
  show "runs enc modules" unfolding runs_def
  proof (intro ballI conjI impI)
    fix b assume b: "b \<in> set (allBlocks modules)"
    { assume "isProvider b"
      from modulesToPlanJSON_succeeds(2)[OF run b this]
      show "\<not> isl (providerName b)" "\<not> isl (providerRegion b)" by auto }
    { assume "isResource b"
      from modulesToPlanJSON_succeeds(1)[OF run b this]
      show "\<not> isl (resourceValues enc b)" by simp }
    { assume "isResource b"
      from modulesLoop_succeeds_key[OF l b this]
      show "\<not> isl (providerConfigKey '''' b)" . }
  qed
next
  assume "runs enc modules"
  from modulesLoop_runs[OF this, of emptyPlan ro]
  show "\<exists>sch. modulesToPlanJSON ro enc modules = Inr sch"
    by (simp add: modulesToPlanJSON_def emptyPlan_def)
qed

lemma modulesLoop_order:
  assumes "admissible ro" and "admissible ro'"
  shows "modulesLoop ro enc ms sch = modulesLoop ro' enc ms sch"
proof (induction ms arbitrary: sch)
  case Nil
  then show ?case by simp
next
  case (Cons m ms)
  show ?case
  proof (cases "providerLoop (Blocks m) [] sch")
    case (Inl p)
    then show ?thesis by simp
  next
    case (Inr r)
    obtain key sch1 where r: "r = (key, sch1)" by (cases r)
    show ?thesis
    proof (cases "resourceLoop ro' enc (Blocks m) key sch1")
      case (Inl p)
      with Inr r show ?thesis by (simp add: resourceLoop_order[OF assms])
    next
      case sch2: (Inr sch2)
      with Inr r Cons.IH show ?thesis by (simp add: resourceLoop_order[OF assms])
    qed
  qed
qed

lemma modulesToPlanJSON_order:
  assumes "admissible ro" and "admissible ro'"
  shows "modulesToPlanJSON ro enc modules = modulesToPlanJSON ro' enc modules"
  by (simp add: modulesToPlanJSON_def modulesLoop_order[OF assms])

lemma modulesLoop_bytes:
  assumes "\<And>v. fst (enc v) = fst (enc' v)"
  shows "modulesLoop ro enc ms sch = modulesLoop ro enc' ms sch"
proof (induction ms arbitrary: sch)
  case Nil
  then show ?case by simp
next
  case (Cons m ms)
  show ?case
  proof (cases "providerLoop (Blocks m) '''' sch")
    case (Inl p)
    then show ?thesis by simp
  next
    case (Inr ks)
    obtain key sch1 where ks: "ks = (key, sch1)" by (cases ks)
    show ?thesis
    proof (cases "resourceLoop ro enc' (Blocks m) key sch1")
      case (Inl p)
      with Inr ks show ?thesis by (simp add: resourceLoop_bytes[OF assms])
    next
      case r: (Inr sch2)
      with Inr ks show ?thesis using Cons.IH by (simp add: resourceLoop_bytes[OF assms])
    qed
  qed
qed

lemma modulesToPlanJSON_bytes:
  "modulesToPlanJSON ro enc modules = modulesToPlanJSON ro (\<lambda>v. (fst (enc v), None)) modules"
  unfolding modulesToPlanJSON_def by (rule modulesLoop_bytes) simp

lemma runs_encoder: "runs enc modules = runs enc' modules"
  unfolding runs_def using resourceValues_isl[of enc _ enc'] by simp

lemma modulesToPlanJSON_total:
  "runs enc' modules \<Longrightarrow> \<exists>sch. modulesToPlanJSON ro enc modules = Inr sch"
  using modulesToPlanJSON_runs_iff[of ro enc modules] runs_encoder[of enc modules enc'] by simp

lemma resource_entries_of_runs:
  assumes "runs enc modules"
  shows "\<exists>sch. modulesToPlanJSON ro enc modules = Inr sch
       \<and> map ResourceChangesJSON.Address (ResourceChanges sch)
           = map FullName (filter isResource (allBlocks modules))
       \<and> map ResourceJSON.Address (plannedRoot sch) = map FullName (filter isRoot (allBlocks modules))
       \<and> (\<exists>bucket. childModules sch = [bucket]
             \<and> map ResourceJSON.Address (ChildModule.Resources bucket)
                 = map FullName (filter isNested (allBlocks modules)))
       \<and> length (ResourceChanges sch) = length (filter isResource (allBlocks modules))"
proof -
  from modulesToPlanJSON_total[OF assms] obtain sch where
    run: "modulesToPlanJSON ro enc modules = Inr sch" ..
  note doc = modulesToPlanJSON_document[OF run]
  have 1: "map ResourceChangesJSON.Address (ResourceChanges sch)
           = map FullName (filter isResource (allBlocks modules))"
    by (simp add: doc(1) resourceChangesJSON_def comp_def)
  have 2: "map ResourceJSON.Address (plannedRoot sch) = map FullName (filter isRoot (allBlocks modules))"
    by (simp add: doc(2) resourceJSON_def comp_def)
  have 3: "\<exists>bucket. childModules sch = [bucket]
             \<and> map ResourceJSON.Address (ChildModule.Resources bucket)
                 = map FullName (filter isNested (allBlocks modules))"
    by (simp add: doc(3) resourceJSON_def comp_def)
  have 4: "length (ResourceChanges sch) = length (filter isResource (allBlocks modules))"
    by (simp add: doc(1))
  from run 1 2 3 4 show ?thesis by blast
qed

subsection \<open>Loading\<close>

text \<open>
  What \<^verbatim>\<open>loadPlanJSON\<close> returns after parsing succeeded.
\<close>

lemma loadPlanJSON_error:
  assumes "loadPlanJSON ro enc json_Marshal (Inr modules) = Inr (b, Some err)"
  shows "b = None \<and> (\<exists>sch e. modulesToPlanJSON ro enc modules = Inr sch \<and> json_Marshal sch = Inl e
           \<and> err = ''error handling built plan json from hcl '' @ e)"
proof -
  from assms obtain sch where s: "modulesToPlanJSON ro enc modules = Inr sch"
    by (cases "modulesToPlanJSON ro enc modules") (simp_all add: loadPlanJSON_def)
  from assms s obtain e where e: "json_Marshal sch = Inl e"
    by (cases "json_Marshal sch") (simp_all add: loadPlanJSON_def)
  from assms s e show ?thesis by (simp add: loadPlanJSON_def)
qed

lemma loadPlanJSON_returns:
  assumes "loadPlanJSON ro enc json_Marshal (Inr modules) = Inr (b, err)"
  shows "\<exists>sch. modulesToPlanJSON ro enc modules = Inr sch \<and>
     ((\<exists>bytes. json_Marshal sch = Inr bytes \<and> b = Some bytes \<and> err = None) \<or>
      (\<exists>e. json_Marshal sch = Inl e \<and> b = None
         \<and> err = Some (''error handling built plan json from hcl '' @ e)))"
proof -
  from assms obtain sch where s: "modulesToPlanJSON ro enc modules = Inr sch"
    by (cases "modulesToPlanJSON ro enc modules") (simp_all add: loadPlanJSON_def)
  show ?thesis
  proof (cases "json_Marshal sch")
    case (Inl e)
    with assms s show ?thesis by (simp add: loadPlanJSON_def)
  next
    case (Inr bytes)
    with assms s show ?thesis by (simp add: loadPlanJSON_def)
  qed
qed

lemma loadPlanJSON_document:
  "modulesToPlanJSON ro enc modules = Inr sch \<Longrightarrow>
   loadPlanJSON ro enc json_Marshal (Inr modules) =
     Inr (case json_Marshal sch of
            Inr bytes \<Rightarrow> (Some bytes, None)
          | Inl e \<Rightarrow> (None, Some (''error handling built plan json from hcl '' @ e)))"
  by (cases "json_Marshal sch") (simp_all add: loadPlanJSON_def)

lemma loadPlanJSON_bytes:
  "loadPlanJSON ro enc json_Marshal parsed = loadPlanJSON ro (\<lambda>v. (fst (enc v), None)) json_Marshal parsed"
  by (cases parsed) (simp_all add: loadPlanJSON_def modulesToPlanJSON_bytes[of ro enc])

subsection \<open>The examples\<close>

text \<open>
  The example configurations, run.
\<close>

lemma example_runs: "\<exists>sch. modulesToPlanJSON ascending sampleEncoder exampleModules = Inr sch"
  by (simp add: modulesToPlanJSON_def exampleModules_def awsProvider_def webInstance_def ebsDevice_def netSubnet_def
     emptyPlan_def providerBlock_def providerName_def providerRegion_def GetAttribute_def Value_of_def
     resourceBlock_def resourceValues_def marshalAttributeValues_def sampleEncoder_def providerConfigKey_def
     addModuleResource_def addRootResource_def Let_def)

lemma webInstance_values:
  "\<exists>ret. marshalAttributeValues sampleEncoder ''resource'' (Values webInstance) = Inr (Some ret)
     \<and> fmlookup ret ''ami'' = Some (RawMessage (Some ''null''))"
  by (simp add: webInstance_def marshalAttributeValues_def sampleEncoder_def)

lemma twoNets_run:
  "\<exists>sch. modulesToPlanJSON ascending sampleEncoder
            [\<lparr>Blocks = [netSubnet]\<rparr>, \<lparr>Blocks = [otherNetSubnet]\<rparr>] = Inr sch
     \<and> map_option Source (fmlookup (moduleCalls sch) ''net'') = Some ''./modules/net''"
  by (simp add: modulesToPlanJSON_def netSubnet_def otherNetSubnet_def
     emptyPlan_def GetAttribute_def
     resourceBlock_def resourceValues_def marshalAttributeValues_def sampleEncoder_def providerConfigKey_def
     addModuleResource_def Let_def)

lemma emptyAlias_run:
  "\<exists>sch. modulesToPlanJSON ascending sampleEncoder
            [\<lparr>Blocks = [emptyAliasProvider, googleProvider, webInstance]\<rparr>] = Inr sch
     \<and> map ProviderConfigKey (configResources sch) = [''google'']"
  by (simp add: modulesToPlanJSON_def emptyAliasProvider_def googleProvider_def webInstance_def
     ebsDevice_def emptyPlan_def providerBlock_def providerName_def providerRegion_def
     GetAttribute_def Value_of_def rootResourceData_def
     resourceBlock_def resourceValues_def marshalAttributeValues_def sampleEncoder_def providerConfigKey_def
     addRootResource_def Let_def)

lemma emptyAliasProvider_name: "providerName emptyAliasProvider = Inr []"
    by (simp add: emptyAliasProvider_def providerName_def GetAttribute_def)

lemma webInstance_no_provider: "GetAttribute webInstance ''provider'' = None"
    by (simp add: GetAttribute_def webInstance_def)

lemma childKinds_value:
  "childKinds = fmupd ''ebs_block_device'' [fmupd ''size'' (refs [''var.size'']) fmempty]
                 (fmupd ''network_interface''
                    [fmupd ''subnet_id'' (refs [''aws_subnet.main.id'']) fmempty] fmempty)"
  by (simp add: childKinds_def appInstance_def networkInterface_def ebsDevice_def
      len_pos_iff fmupd_not_empty)

lemma strings_less: "''ebs_block_device'' < ''network_interface''"
  by (simp add: less_char_def)

lemma ascending_childKinds:
  "ascending childKinds =
     [(''ebs_block_device'', [fmupd ''size'' (refs [''var.size'']) fmempty]),
      (''network_interface'', [fmupd ''subnet_id'' (refs [''aws_subnet.main.id'']) fmempty])]"
  using strings_less
  by (simp add: childKinds_value ascending_def sorted_list_of_fmap_def sorted_list_of_fset.rep_eq
      insort_is_Cons)

lemma descending_childKinds:
  "descending childKinds =
     [(''network_interface'', [fmupd ''subnet_id'' (refs [''aws_subnet.main.id'']) fmempty]),
      (''ebs_block_device'', [fmupd ''size'' (refs [''var.size'']) fmempty])]"
  using ascending_childKinds by (simp add: descending_def ascending_def)



lemma pendingInstance_values:
  "resourceValues enc pendingInstance
     = Inr (Some (fmupd ''ami'' (RawMessage (fst (enc (UnknownVal cty_String)))) fmempty))"
  by (cases "enc (UnknownVal cty_String)")
     (simp add: pendingInstance_def resourceValues_def marshalAttributeValues_def)

lemma pending_blocks:
  "filter isResource (allBlocks [\<lparr>Blocks = [awsProvider, pendingInstance]\<rparr>]) = [pendingInstance]"
  "filter isRoot (allBlocks [\<lparr>Blocks = [awsProvider, pendingInstance]\<rparr>]) = [pendingInstance]"
  by (simp_all add: allBlocks_def isResource_def isRoot_def awsProvider_def pendingInstance_def)

lemma pending_runs: "runs enc [\<lparr>Blocks = [awsProvider, pendingInstance]\<rparr>]"
proof -
  have p: "Type awsProvider = ''provider''" "\<not> isl (providerName awsProvider)"
    "\<not> isl (providerRegion awsProvider)"
    by (simp_all add: awsProvider_def providerName_def providerRegion_def GetAttribute_def Value_of_def)
  have r: "Type pendingInstance = ''resource''" "\<not> isl (providerConfigKey '''' pendingInstance)"
    by (simp_all add: pendingInstance_def providerConfigKey_def GetAttribute_def)
  show ?thesis
    by (simp add: runs_def allBlocks_def isProvider_def isResource_def p r pendingInstance_values)
qed

lemma pending_changes:
  assumes "modulesToPlanJSON ro enc [\<lparr>Blocks = [awsProvider, pendingInstance]\<rparr>] = Inr sch"
  shows "ResourceChanges sch =
           [resourceChangesJSON pendingInstance
              (Some (fmupd ''ami'' (RawMessage (fst (enc (UnknownVal cty_String)))) fmempty))]"
  by (simp add: modulesToPlanJSON_document(1)[OF assms] pending_blocks snapshot_def
      pendingInstance_values)

lemma truncated_single:
  "truncated (Some (fmupd k (RawMessage raw) fmempty)) \<longleftrightarrow> raw = Some ''''"
  by (auto simp: truncated_def fmpred_iff split: if_splits)

lemma pending_marshal:
  assumes "modulesToPlanJSON ro enc [\<lparr>Blocks = [awsProvider, pendingInstance]\<rparr>] = Inr sch"
  shows "sampleMarshal sch =
     (if fst (enc (UnknownVal cty_String)) = Some ''''
      then Inl ''json: error calling MarshalJSON for type json.RawMessage: unexpected end of JSON input''
      else Inr ''aws_instance.pending; '')"
  by (simp add: sampleMarshal_def pending_changes[OF assms] resourceChangesJSON_def truncated_single
      pendingInstance_def)

section \<open>Claims\<close>

subsection \<open>Resource entries\<close>

text \<open>
  Claim C1. One module with a provider block whose region is the number 5 and one resource
  block: the first loop panics on the region, the conversion returns no document, and the
  resource block has neither a planned-resource entry nor a resource change. Two modules, a
  resource block in the first and a resource block with nil attribute values and a child
  block in the second: the second loop panics on the second block, and neither of the two
  resource blocks has an entry. The example configuration has two resource blocks, no block
  of it makes the assembler panic, and its document lists the two resource changes, in block
  order.
\<close>

theorem resource_block_without_entries:
  "filter isResource (allBlocks [\<lparr>Blocks = [numericRegionProvider, webInstance]\<rparr>]) = [webInstance]
   \<and> modulesToPlanJSON ascending sampleEncoder [\<lparr>Blocks = [numericRegionProvider, webInstance]\<rparr>]
       = Inl NotAString
   \<and> filter isResource (allBlocks [\<lparr>Blocks = [netSubnet]\<rparr>, \<lparr>Blocks = [nullResource]\<rparr>])
       = [netSubnet, nullResource]
   \<and> modulesToPlanJSON ascending sampleEncoder [\<lparr>Blocks = [netSubnet]\<rparr>, \<lparr>Blocks = [nullResource]\<rparr>]
       = Inl NilMapAssignment
   \<and> filter isResource (allBlocks exampleModules) = [webInstance, netSubnet]
   \<and> (case modulesToPlanJSON ascending sampleEncoder exampleModules of
         Inr sch \<Rightarrow> map ResourceChangesJSON.Address (ResourceChanges sch)
       | Inl p \<Rightarrow> [])
       = [''aws_instance.web'', ''module.net.aws_subnet.main'']"
proof -
  have 1: "filter isResource (allBlocks [\<lparr>Blocks = [numericRegionProvider, webInstance]\<rparr>]) = [webInstance]"
    by (simp add: allBlocks_def isResource_def numericRegionProvider_def webInstance_def)
  have 2: "modulesToPlanJSON ascending sampleEncoder [\<lparr>Blocks = [numericRegionProvider, webInstance]\<rparr>]
       = Inl NotAString"
    by (simp add: numericRegionProvider_def GetAttribute_def Value_of_def providerRegion_def
        providerName_def providerBlock_def modulesToPlanJSON_def)
  have 3: "filter isResource (allBlocks [\<lparr>Blocks = [netSubnet]\<rparr>, \<lparr>Blocks = [nullResource]\<rparr>])
       = [netSubnet, nullResource]"
    by (simp add: allBlocks_def isResource_def netSubnet_def nullResource_def)
  have n: "\<exists>sch. resourceLoop ascending sampleEncoder [netSubnet] '''' emptyPlan = Inr sch"
    by (simp add: netSubnet_def resourceBlock_def resourceValues_def marshalAttributeValues_def
        providerConfigKey_def GetAttribute_def addModuleResource_def emptyPlan_def Let_def)
  then obtain sch where s: "resourceLoop ascending sampleEncoder [netSubnet] '''' emptyPlan = Inr sch" ..
  have p: "resourceBlock ascending sampleEncoder '''' nullResource sch = Inl NilMapAssignment"
    by (simp add: nullResource_def ebsDevice_def marshalAttributeValues_def sampleEncoder_def
        resourceBlock_def resourceValues_def)
  have 4: "modulesToPlanJSON ascending sampleEncoder [\<lparr>Blocks = [netSubnet]\<rparr>, \<lparr>Blocks = [nullResource]\<rparr>]
       = Inl NilMapAssignment"
    using s p by (simp add: modulesToPlanJSON_def netSubnet_def nullResource_def)
  have 5: "filter isResource (allBlocks exampleModules) = [webInstance, netSubnet]"
    by (simp add: allBlocks_def exampleModules_def isResource_def
        awsProvider_def webInstance_def netSubnet_def)
  from example_runs obtain doc where
    run: "modulesToPlanJSON ascending sampleEncoder exampleModules = Inr doc" ..
  have "map ResourceChangesJSON.Address (ResourceChanges doc)
          = [''aws_instance.web'', ''module.net.aws_subnet.main'']"
    by (simp add: modulesToPlanJSON_document(1)[OF run] 5 resourceChangesJSON_def
        webInstance_def netSubnet_def)
  then have 6: "(case modulesToPlanJSON ascending sampleEncoder exampleModules of
         Inr sch \<Rightarrow> map ResourceChangesJSON.Address (ResourceChanges sch)
       | Inl p \<Rightarrow> [])
       = [''aws_instance.web'', ''module.net.aws_subnet.main'']"
    unfolding run by simp
  show ?thesis by (rule conjI[OF 1 conjI[OF 2 conjI[OF 3 conjI[OF 4 conjI[OF 5 6]]]]])
qed

subsection \<open>Resources inside module calls\<close>

text \<open>
  Claim C2, as amended. In every document the assembler returns, a resource block inside a
  module call has its declaration in the module call stored under the block's module name.
  That call lists the declarations of the nested resources of the name in block order, and
  its source is the declared source of the first of them. The block is no root resource, and
  the declarations of the root module are those of the root resources only; likewise the
  planned-resource record of the block lies in the single child-module bucket, and the
  root-level list holds the records of the root resources only.
\<close>

theorem nested_resources_under_module_calls:
  assumes "modulesToPlanJSON ro enc modules = Inr sch"
    and "b \<in> set (allBlocks modules)" and "isNested b"
  shows "(\<exists>mc first rest.
           fmlookup (moduleCalls sch) (ModuleName b) = Some mc
         \<and> nestedIn (ModuleName b) modules = first # rest
         \<and> Source mc = ModuleSource first
         \<and> ModuleCallModule.Resources (Module mc) = map (moduleResourceData ro) (first # rest)
         \<and> moduleResourceData ro b \<in> set (ModuleCallModule.Resources (Module mc)))
     \<and> \<not> isRoot b
     \<and> configResources sch = concat (map (rootDeclarations ro) modules)
     \<and> plannedRoot sch
           = map (\<lambda>b. resourceJSON b (snapshot enc b)) (filter isRoot (allBlocks modules))
     \<and> (\<exists>bucket. childModules sch = [bucket]
         \<and> ChildModule.Resources bucket
             = map (\<lambda>b. resourceJSON b (snapshot enc b)) (filter isNested (allBlocks modules))
         \<and> resourceJSON b (snapshot enc b) \<in> set (ChildModule.Resources bucket))"
proof -
  note doc = modulesToPlanJSON_document[OF assms(1)]
  from assms(2,3) have mem: "b \<in> set (nestedIn (ModuleName b) modules)"
    by (simp add: nestedIn_def)
  then obtain first rest where fr: "nestedIn (ModuleName b) modules = first # rest"
    by (cases "nestedIn (ModuleName b) modules") auto
  let ?mc = "\<lparr>Source = ModuleSource first,
       Module = \<lparr>ModuleCallModule.Resources = map (moduleResourceData ro) (first # rest)\<rparr>\<rparr>"
  have look: "fmlookup (moduleCalls sch) (ModuleName b) = Some ?mc"
    by (simp add: doc(5) fr callOf_def)
  have "moduleResourceData ro b \<in> set (ModuleCallModule.Resources (Module ?mc))"
    using mem fr by auto
  with look fr have 1: "\<exists>mc first rest.
           fmlookup (moduleCalls sch) (ModuleName b) = Some mc
         \<and> nestedIn (ModuleName b) modules = first # rest
         \<and> Source mc = ModuleSource first
         \<and> ModuleCallModule.Resources (Module mc) = map (moduleResourceData ro) (first # rest)
         \<and> moduleResourceData ro b \<in> set (ModuleCallModule.Resources (Module mc))"
    by (intro exI[of _ ?mc] exI[of _ first] exI[of _ rest]) simp
  have 2: "\<not> isRoot b" using assms(3) by (simp add: isRoot_def isNested_def)
  have 3: "\<exists>bucket. childModules sch = [bucket]
         \<and> ChildModule.Resources bucket
             = map (\<lambda>b. resourceJSON b (snapshot enc b)) (filter isNested (allBlocks modules))
         \<and> resourceJSON b (snapshot enc b) \<in> set (ChildModule.Resources bucket)"
    using assms(2,3) by (simp add: doc(3))
  from 1 2 3 doc(4) doc(2) show ?thesis by blast
qed

theorem nested_resources_under_module_calls_witness:
  "netSubnet \<in> set (allBlocks exampleModules) \<and> isNested netSubnet
   \<and> (\<exists>sch mc bucket. modulesToPlanJSON ascending sampleEncoder exampleModules = Inr sch
        \<and> fmlookup (moduleCalls sch) ''net'' = Some mc
        \<and> Source mc = ''./modules/net''
        \<and> ModuleCallModule.Resources (Module mc) = [moduleResourceData ascending netSubnet]
        \<and> map ResourceData.Address (configResources sch) = [''aws_instance.web'']
        \<and> map ResourceJSON.Address (plannedRoot sch) = [''aws_instance.web'']
        \<and> childModules sch = [bucket]
        \<and> map ResourceJSON.Address (ChildModule.Resources bucket) = [''module.net.aws_subnet.main''])"
proof -
  from example_runs obtain sch where
    run: "modulesToPlanJSON ascending sampleEncoder exampleModules = Inr sch" ..
  have mem: "netSubnet \<in> set (allBlocks exampleModules)"
    by (simp add: allBlocks_def exampleModules_def)
  have nested: "isNested netSubnet" by (simp add: isNested_def netSubnet_def)
  have name: "ModuleName netSubnet = ''net''" "ModuleSource netSubnet = ''./modules/net''"
    "FullName netSubnet = ''module.net.aws_subnet.main''"
    by (simp_all add: netSubnet_def)
  have nets: "nestedIn ''net'' exampleModules = [netSubnet]"
    "filter isNested (allBlocks exampleModules) = [netSubnet]"
    "filter isRoot (allBlocks exampleModules) = [webInstance]"
    by (simp_all add: nestedIn_def allBlocks_def exampleModules_def isNested_def isRoot_def
        awsProvider_def webInstance_def netSubnet_def)
  have roots: "map ResourceData.Address (concat (map (rootDeclarations ascending) exampleModules))
      = [''aws_instance.web'']"
    by (simp add: rootDeclarations_def exampleModules_def isRoot_def rootResourceData_def
        awsProvider_def webInstance_def netSubnet_def)
  have web: "FullName webInstance = ''aws_instance.web''" by (simp add: webInstance_def)
  from nested_resources_under_module_calls[OF run mem nested] mem nested run
  show ?thesis
    by (auto simp: name nets roots resourceJSON_def web)
qed

text \<open>
  As stated, the claim gives the module call of every nested block the source that block
  declares. Two nested blocks of the module name \<^verbatim>\<open>net\<close> with different sources: the call
  keeps the source of the first one.
\<close>

theorem module_source_of_first_block_counterexample:
  "isNested otherNetSubnet \<and> ModuleName otherNetSubnet = ''net''
   \<and> ModuleSource otherNetSubnet = ''./modules/other-net''
   \<and> (case modulesToPlanJSON ascending sampleEncoder
              [\<lparr>Blocks = [netSubnet]\<rparr>, \<lparr>Blocks = [otherNetSubnet]\<rparr>] of
         Inr sch \<Rightarrow> map_option Source (fmlookup (moduleCalls sch) ''net'')
       | Inl p \<Rightarrow> None) = Some ''./modules/net''"
proof -
  from twoNets_run obtain sch where
    "modulesToPlanJSON ascending sampleEncoder
            [\<lparr>Blocks = [netSubnet]\<rparr>, \<lparr>Blocks = [otherNetSubnet]\<rparr>] = Inr sch"
    and "map_option Source (fmlookup (moduleCalls sch) ''net'') = Some ''./modules/net''"
    by (elim exE conjE)
  then show ?thesis by (simp add: otherNetSubnet_def isNested_def)
qed

subsection \<open>Reference extraction\<close>

text \<open>
  Claim C3. A resource block without attributes whose one child block has an attribute with
  one reference: the extraction of the child returns that reference, and the extraction of
  the parent returns the empty map, with no entry for the kind of the child. The loop over
  the children sits inside the loop over the attributes and does not run. Under a parent
  that has attributes, a child with references is listed under its kind.
\<close>

theorem missing_child_entries:
  "GetAttributes securityGroup = [] \<and> Children securityGroup = [ingressRule]
   \<and> blockToReferences ascending ingressRule = fmupd ''cidr_blocks'' (refs [''var.cidr'']) fmempty
   \<and> blockToReferences ascending securityGroup = fmempty
   \<and> GetAttributes webInstance \<noteq> [] \<and> Children webInstance = [ebsDevice]
   \<and> fmlookup (blockToReferences ascending webInstance) ''ebs_block_device''
       = Some (ChildExpressions [blockToReferences ascending ebsDevice])"
  by (simp add: securityGroup_def ingressRule_def webInstance_def ebsDevice_def
      len_pos_iff fmupd_not_empty ascending_single)

subsection \<open>Provider keys\<close>

text \<open>
  Claim C4, as amended. In every document the assembler returns, the provider configuration
  key of a root-level resource is the value of its own \<^verbatim>\<open>provider\<close> attribute if that is a
  string, and else the default key of its module: the effective name (the alias if present,
  else the type label) of the first provider block of the module whose effective name is not
  the empty string, and the empty string if there is none. Every provider block has an
  effective name, and the configuration stored under a name is that of the last provider
  block of that name, in the order of the blocks of all modules.
\<close>

theorem default_provider_key:
  assumes "modulesToPlanJSON ro enc modules = Inr sch"
  shows "map ProviderConfigKey (configResources sch) =
           concat (map (\<lambda>m. map (\<lambda>b. case explicitProvider b of
                                         Some s \<Rightarrow> s
                                       | None \<Rightarrow> defaultProviderKey (Blocks m))
                                (filter isRoot (Blocks m))) modules)
       \<and> (\<forall>b \<in> set (allBlocks modules). isProvider b \<longrightarrow> (\<exists>name. providerName b = Inr name))
       \<and> (\<forall>name. fmlookup (providerConfigs sch) name =
             (case lastProvider name (allBlocks modules) of
                None \<Rightarrow> None
              | Some b \<Rightarrow> Some (providerConfig name (regionOf b))))"
proof -
  note doc = modulesToPlanJSON_document[OF assms]
  have 1: "map ProviderConfigKey (configResources sch) =
           concat (map (\<lambda>m. map (\<lambda>b. case explicitProvider b of
                                         Some s \<Rightarrow> s
                                       | None \<Rightarrow> defaultProviderKey (Blocks m))
                                (filter isRoot (Blocks m))) modules)"
    by (simp add: doc(4) map_concat comp_def rootDeclarations_keys)
  have 2: "\<forall>b \<in> set (allBlocks modules). isProvider b \<longrightarrow> (\<exists>name. providerName b = Inr name)"
    using modulesToPlanJSON_succeeds(2)[OF assms] by blast
  have 3: "\<forall>name. fmlookup (providerConfigs sch) name =
             (case lastProvider name (allBlocks modules) of
                None \<Rightarrow> None
              | Some b \<Rightarrow> Some (providerConfig name (regionOf b)))"
    by (simp add: doc(6) recorded_def)
  from 1 2 3 show ?thesis by blast
qed

theorem default_provider_key_witness:
  "\<exists>sch. modulesToPlanJSON ascending sampleEncoder exampleModules = Inr sch
     \<and> map ProviderConfigKey (configResources sch) = [''aws'']
     \<and> providerName awsProvider = Inr ''aws''
     \<and> fmlookup (providerConfigs sch) ''aws'' = Some (providerConfig ''aws'' ''us-east-1'')
     \<and> fmlookup (providerConfigs sch) ''google'' = None"
proof -
  from example_runs obtain sch where
    run: "modulesToPlanJSON ascending sampleEncoder exampleModules = Inr sch" ..
  have keys: "concat (map (\<lambda>m. map (\<lambda>b. case explicitProvider b of
                                         Some s \<Rightarrow> s
                                       | None \<Rightarrow> defaultProviderKey (Blocks m))
                                (filter isRoot (Blocks m))) exampleModules) = [''aws'']"
    by (simp add: exampleModules_def isRoot_def explicitProvider_def GetAttribute_def
        defaultProviderKey_def isProvider_def providerName_def
        awsProvider_def webInstance_def netSubnet_def)
  have name: "providerName awsProvider = Inr ''aws''"
    by (simp add: providerName_def GetAttribute_def awsProvider_def)
  have last: "lastProvider ''aws'' (allBlocks exampleModules) = Some awsProvider"
    "lastProvider ''google'' (allBlocks exampleModules) = None"
    by (simp_all add: lastProvider_def allBlocks_def exampleModules_def isProvider_def
        providerName_def GetAttribute_def awsProvider_def webInstance_def netSubnet_def)
  have region: "regionOf awsProvider = ''us-east-1''"
    by (simp add: regionOf_def providerRegion_def GetAttribute_def Value_of_def awsProvider_def)
  from default_provider_key[OF run] run show ?thesis
    by (simp add: keys name last region)
qed

text \<open>
  As stated, the claim takes the default key from the first provider block. A first provider
  block with the empty alias, then the provider \<^verbatim>\<open>google\<close>: the empty key counts as not
  set, and the root resource gets the key \<^verbatim>\<open>google\<close>.
\<close>

theorem first_provider_with_empty_name_counterexample:
  "hd [emptyAliasProvider, googleProvider, webInstance] = emptyAliasProvider
   \<and> providerName emptyAliasProvider = Inr ''''
   \<and> GetAttribute webInstance ''provider'' = None
   \<and> (case modulesToPlanJSON ascending sampleEncoder
              [\<lparr>Blocks = [emptyAliasProvider, googleProvider, webInstance]\<rparr>] of
         Inr sch \<Rightarrow> map ProviderConfigKey (configResources sch)
       | Inl p \<Rightarrow> []) = [''google'']"
proof -
  from emptyAlias_run obtain sch where
    r: "modulesToPlanJSON ascending sampleEncoder
            [\<lparr>Blocks = [emptyAliasProvider, googleProvider, webInstance]\<rparr>] = Inr sch"
    and k: "map ProviderConfigKey (configResources sch) = [''google'']"
    by (elim exE conjE)
  have "(case modulesToPlanJSON ascending sampleEncoder
              [\<lparr>Blocks = [emptyAliasProvider, googleProvider, webInstance]\<rparr>] of
         Inr sch \<Rightarrow> map ProviderConfigKey (configResources sch)
       | Inl p \<Rightarrow> []) = [''google'']"
    unfolding r using k by simp
  with emptyAliasProvider_name webInstance_no_provider show ?thesis by simp
qed

subsection \<open>The count attribute\<close>




subsection \<open>All or nothing\<close>

text \<open>
  Claim C6, as amended. After parsing succeeded, whenever the conversion returns, it
  returns either the bytes of the serialized document and no error, or no bytes and the error
  of serializing the assembled document, wrapped with the prefix
  \<^verbatim>\<open>error handling built plan json from hcl\<close>. No other error is returned, and bytes never come
  with an error. A value that cannot be encoded does not abort the conversion: on an input on
  which no block makes the assembler panic with one encoder, the conversion returns with
  every encoder, failing or not, and what it returns is decided by the marshaller of the
  document alone. The errors of the encoder do not change the result at all: it is the result
  for the encoder that returns the same bytes and never an error.
\<close>

theorem conversion_all_or_nothing:
  "(loadPlanJSON ro enc json_Marshal (Inr modules) = Inr (b, err) \<longrightarrow>
      (\<exists>sch. modulesToPlanJSON ro enc modules = Inr sch \<and>
         ((\<exists>bytes. json_Marshal sch = Inr bytes \<and> b = Some bytes \<and> err = None) \<or>
          (\<exists>e. json_Marshal sch = Inl e \<and> b = None
             \<and> err = Some (''error handling built plan json from hcl '' @ e)))))
   \<and> (runs enc' modules \<longrightarrow>
      (\<exists>sch. modulesToPlanJSON ro enc modules = Inr sch \<and>
         loadPlanJSON ro enc json_Marshal (Inr modules) =
           Inr (case json_Marshal sch of
                  Inr bytes \<Rightarrow> (Some bytes, None)
                | Inl e \<Rightarrow> (None, Some (''error handling built plan json from hcl '' @ e)))))
   \<and> loadPlanJSON ro enc json_Marshal (Inr modules)
       = loadPlanJSON ro (\<lambda>v. (fst (enc v), None)) json_Marshal (Inr modules)"
proof (intro conjI impI)
  assume "loadPlanJSON ro enc json_Marshal (Inr modules) = Inr (b, err)"
  then show "\<exists>sch. modulesToPlanJSON ro enc modules = Inr sch \<and>
         ((\<exists>bytes. json_Marshal sch = Inr bytes \<and> b = Some bytes \<and> err = None) \<or>
          (\<exists>e. json_Marshal sch = Inl e \<and> b = None
             \<and> err = Some (''error handling built plan json from hcl '' @ e)))"
    by (rule loadPlanJSON_returns)
next
  assume "runs enc' modules"
  from modulesToPlanJSON_total[OF this] obtain sch where
    run: "modulesToPlanJSON ro enc modules = Inr sch" ..
  from run loadPlanJSON_document[OF run, of json_Marshal]
  show "\<exists>sch. modulesToPlanJSON ro enc modules = Inr sch \<and>
         loadPlanJSON ro enc json_Marshal (Inr modules) =
           Inr (case json_Marshal sch of
                  Inr bytes \<Rightarrow> (Some bytes, None)
                | Inl e \<Rightarrow> (None, Some (''error handling built plan json from hcl '' @ e)))"
    by (intro exI[of _ sch] conjI)
next
  show "loadPlanJSON ro enc json_Marshal (Inr modules)
       = loadPlanJSON ro (\<lambda>v. (fst (enc v), None)) json_Marshal (Inr modules)"
    by (rule loadPlanJSON_bytes)
qed

theorem conversion_all_or_nothing_witness:
  "runs totalEncoder [\<lparr>Blocks = [awsProvider, pendingInstance]\<rparr>]
   \<and> Values pendingInstance = ObjectVal [(''ami'', UnknownVal cty_String)]
   \<and> sampleEncoder (UnknownVal cty_String) = (None, Some ''value is not known'')
   \<and> loadPlanJSON ascending sampleEncoder sampleMarshal
         (Inr [\<lparr>Blocks = [awsProvider, pendingInstance]\<rparr>])
       = Inr (Some ''aws_instance.pending; '', None)
   \<and> (\<exists>sch. modulesToPlanJSON ascending sampleEncoder [\<lparr>Blocks = [awsProvider, pendingInstance]\<rparr>]
                = Inr sch
          \<and> sampleMarshal sch = Inr ''aws_instance.pending; '')
   \<and> loadPlanJSON ascending (\<lambda>v. (fst (sampleEncoder v), None)) sampleMarshal
         (Inr [\<lparr>Blocks = [awsProvider, pendingInstance]\<rparr>])
       = Inr (Some ''aws_instance.pending; '', None)"
proof -
  note inst = conversion_all_or_nothing[of ascending sampleEncoder sampleMarshal
      "[\<lparr>Blocks = [awsProvider, pendingInstance]\<rparr>]" "Some ''aws_instance.pending; ''" None
      totalEncoder]
  have r: "runs totalEncoder [\<lparr>Blocks = [awsProvider, pendingInstance]\<rparr>]" by (rule pending_runs)
  have v: "Values pendingInstance = ObjectVal [(''ami'', UnknownVal cty_String)]"
    by (simp add: pendingInstance_def)
  have e: "sampleEncoder (UnknownVal cty_String) = (None, Some ''value is not known'')"
    by (simp add: sampleEncoder_def)
  from inst r obtain sch where
    run: "modulesToPlanJSON ascending sampleEncoder [\<lparr>Blocks = [awsProvider, pendingInstance]\<rparr>]
            = Inr sch"
    and load: "loadPlanJSON ascending sampleEncoder sampleMarshal
                 (Inr [\<lparr>Blocks = [awsProvider, pendingInstance]\<rparr>]) =
           Inr (case sampleMarshal sch of
                  Inr bytes \<Rightarrow> (Some bytes, None)
                | Inl e \<Rightarrow> (None, Some (''error handling built plan json from hcl '' @ e)))"
    by blast
  have m: "sampleMarshal sch = Inr ''aws_instance.pending; ''"
    by (simp add: pending_marshal[OF run] e)
  from load m have l: "loadPlanJSON ascending sampleEncoder sampleMarshal
         (Inr [\<lparr>Blocks = [awsProvider, pendingInstance]\<rparr>])
       = Inr (Some ''aws_instance.pending; '', None)"
    by simp
  from inst l have l': "loadPlanJSON ascending (\<lambda>v. (fst (sampleEncoder v), None)) sampleMarshal
         (Inr [\<lparr>Blocks = [awsProvider, pendingInstance]\<rparr>])
       = Inr (Some ''aws_instance.pending; '', None)"
    by simp
  have x: "\<exists>sch. modulesToPlanJSON ascending sampleEncoder [\<lparr>Blocks = [awsProvider, pendingInstance]\<rparr>]
                = Inr sch
          \<and> sampleMarshal sch = Inr ''aws_instance.pending; ''"
    by (rule exI[of _ sch]) (rule conjI[OF run m])
  show ?thesis by (rule conjI[OF r conjI[OF v conjI[OF e conjI[OF l conjI[OF x l']]]]])
qed

text \<open>
  As stated, the claim has the encoding of a value that cannot be encoded abort the conversion.
  The image of an instance is unknown and the encoder fails on it; the conversion goes on,
  records the attribute with the nil bytes of the failed encoding, and returns the bytes of
  the document and no error.
\<close>

theorem unencodable_value_does_not_abort:
  "Values pendingInstance = ObjectVal [(''ami'', UnknownVal cty_String)]
   \<and> sampleEncoder (UnknownVal cty_String) = (None, Some ''value is not known'')
   \<and> (case modulesToPlanJSON ascending sampleEncoder [\<lparr>Blocks = [awsProvider, pendingInstance]\<rparr>] of
         Inr sch \<Rightarrow> map After (map Change (ResourceChanges sch))
       | Inl p \<Rightarrow> [])
       = [Some (fmupd ''ami'' (RawMessage None) fmempty)]
   \<and> loadPlanJSON ascending sampleEncoder sampleMarshal
         (Inr [\<lparr>Blocks = [awsProvider, pendingInstance]\<rparr>])
       = Inr (Some ''aws_instance.pending; '', None)"
proof -
  from modulesToPlanJSON_total[OF pending_runs] obtain sch where
    run: "modulesToPlanJSON ascending sampleEncoder [\<lparr>Blocks = [awsProvider, pendingInstance]\<rparr>]
            = Inr sch" ..
  have v: "Values pendingInstance = ObjectVal [(''ami'', UnknownVal cty_String)]"
    by (simp add: pendingInstance_def)
  have e: "sampleEncoder (UnknownVal cty_String) = (None, Some ''value is not known'')"
    by (simp add: sampleEncoder_def)
  have c: "map After (map Change (ResourceChanges sch)) = [Some (fmupd ''ami'' (RawMessage None) fmempty)]"
    by (simp add: pending_changes[OF run] resourceChangesJSON_def e)
  have m: "sampleMarshal sch = Inr ''aws_instance.pending; ''"
    by (simp add: pending_marshal[OF run] e)
  have l: "loadPlanJSON ascending sampleEncoder sampleMarshal
         (Inr [\<lparr>Blocks = [awsProvider, pendingInstance]\<rparr>])
       = Inr (Some ''aws_instance.pending; '', None)"
    by (simp add: loadPlanJSON_document[OF run] m)
  show ?thesis unfolding run using v e c l by simp
qed

subsection \<open>Determinism\<close>

text \<open>
  Claim C7. The one source of nondeterminism in the conversion is the order in which Go
  ranges over the map \<^verbatim>\<open>childExpressions\<close>; the encoder of values and the marshaller of the
  document are functions of their arguments. For any two admissible orders the assembler
  gives the same document (or the same panic) and the conversion the same bytes and error:
  converting the same modules twice yields identical output.
\<close>

theorem conversion_deterministic:
  assumes "admissible ro" and "admissible ro'"
  shows "modulesToPlanJSON ro enc modules = modulesToPlanJSON ro' enc modules
       \<and> loadPlanJSON ro enc json_Marshal parsed = loadPlanJSON ro' enc json_Marshal parsed"
proof -
  have "loadPlanJSON ro enc json_Marshal parsed = loadPlanJSON ro' enc json_Marshal parsed"
  proof (cases parsed)
    case (Inl err)
    then show ?thesis by (simp add: loadPlanJSON_def)
  next
    case (Inr ms)
    then show ?thesis by (simp add: loadPlanJSON_def modulesToPlanJSON_order[OF assms])
  qed
  with modulesToPlanJSON_order[OF assms] show ?thesis by simp
qed

theorem conversion_deterministic_witness:
  "admissible ascending \<and> admissible descending
   \<and> ascending childKinds \<noteq> descending childKinds
   \<and> modulesToPlanJSON ascending sampleEncoder [\<lparr>Blocks = [awsProvider, appInstance]\<rparr>]
       = modulesToPlanJSON descending sampleEncoder [\<lparr>Blocks = [awsProvider, appInstance]\<rparr>]
   \<and> loadPlanJSON ascending sampleEncoder sampleMarshal (Inr [\<lparr>Blocks = [awsProvider, appInstance]\<rparr>])
       = loadPlanJSON descending sampleEncoder sampleMarshal (Inr [\<lparr>Blocks = [awsProvider, appInstance]\<rparr>])"
proof -
  have "ascending childKinds \<noteq> descending childKinds"
    by (simp add: ascending_childKinds descending_childKinds)
  with conversion_deterministic[OF admissible_ascending admissible_descending,
      of sampleEncoder "[\<lparr>Blocks = [awsProvider, appInstance]\<rparr>]" sampleMarshal
         "Inr [\<lparr>Blocks = [awsProvider, appInstance]\<rparr>]"]
    admissible_ascending admissible_descending
  show ?thesis by simp
qed

subsection \<open>Provider region\<close>

text \<open>
  Claim C8. A provider block whose \<^verbatim>\<open>region\<close> attribute holds the number 5: the value is
  not \<^verbatim>\<open>cty.NilVal\<close>, so the first loop calls \<^verbatim>\<open>AsString\<close> on it, which panics. No
  provider configuration is recorded and the conversion aborts.
\<close>

theorem region_not_a_string_panics:
  "GetAttribute numericRegionProvider ''region''
     = Some \<lparr>Name = ''region'', Value = NumberVal 5, AllReferences = []\<rparr>
   \<and> providerRegion numericRegionProvider = Inl NotAString
   \<and> modulesToPlanJSON ascending sampleEncoder [\<lparr>Blocks = [numericRegionProvider]\<rparr>]
       = Inl NotAString"
  by (simp add: numericRegionProvider_def GetAttribute_def Value_of_def providerRegion_def
      providerName_def providerBlock_def modulesToPlanJSON_def)

subsection \<open>Encoding errors\<close>

text \<open>
  Claim C9. Encoding the value of an attribute never aborts the conversion. For every
  encoder, failing or not, \<^verbatim>\<open>marshalAttributeValues\<close> returns a map for an object value, and
  the map records each attribute (other than a skipped \<^verbatim>\<open>count\<close>) with the bytes the
  encoder returned for it, whatever error came with them. The error is discarded: the
  assembler gives the result it gives for the encoder that returns the same bytes and never
  an error. The conversion goes on: on an input on which no block makes the assembler panic
  with one encoder, it returns a document with every encoder, and in that document the
  snapshot of every resource block records each attribute of the block, \<^verbatim>\<open>count\<close> apart, with
  the bytes the encoder returned. An error that the conversion returns after parsing
  succeeded is therefore the one of marshalling the assembled document, with its prefix, and
  comes without bytes.
\<close>

theorem encoding_errors_dropped:
  "(\<exists>ret. marshalAttributeValues enc blockType (ObjectVal kvs) = Inr (Some ret) \<and>
      (\<forall>key. fmlookup ret key =
         (if skipped blockType key then None
          else map_option (\<lambda>v. RawMessage (fst (enc v))) (map_of (rev kvs) key))))
   \<and> modulesToPlanJSON ro enc modules = modulesToPlanJSON ro (\<lambda>v. (fst (enc v), None)) modules
   \<and> (runs enc' modules \<longrightarrow>
        (\<exists>sch. modulesToPlanJSON ro enc modules = Inr sch
           \<and> ResourceChanges sch
               = map (\<lambda>b. resourceChangesJSON b (snapshot enc b)) (filter isResource (allBlocks modules))
           \<and> plannedRoot sch
               = map (\<lambda>b. resourceJSON b (snapshot enc b)) (filter isRoot (allBlocks modules))
           \<and> childModules sch
               = [\<lparr>ChildModule.Resources =
                    map (\<lambda>b. resourceJSON b (snapshot enc b)) (filter isNested (allBlocks modules))\<rparr>]
           \<and> (\<forall>r \<in> set (filter isResource (allBlocks modules)). \<forall>attrs key v.
                 Values r = ObjectVal attrs \<longrightarrow> map_of (rev attrs) key = Some v \<longrightarrow> key \<noteq> ''count'' \<longrightarrow>
                   (\<exists>m. snapshot enc r = Some m
                      \<and> fmlookup m key = Some (RawMessage (fst (enc v)))))))
   \<and> (loadPlanJSON ro enc json_Marshal (Inr modules) = Inr (b, Some err) \<longrightarrow>
        b = None \<and> (\<exists>sch e. modulesToPlanJSON ro enc modules = Inr sch \<and> json_Marshal sch = Inl e
           \<and> err = ''error handling built plan json from hcl '' @ e))"
proof (intro conjI impI)
  show "\<exists>ret. marshalAttributeValues enc blockType (ObjectVal kvs) = Inr (Some ret) \<and>
      (\<forall>key. fmlookup ret key =
         (if skipped blockType key then None
          else map_option (\<lambda>v. RawMessage (fst (enc v))) (map_of (rev kvs) key)))"
    by (rule marshalAttributeValues_object)
next
  show "modulesToPlanJSON ro enc modules = modulesToPlanJSON ro (\<lambda>v. (fst (enc v), None)) modules"
    by (rule modulesToPlanJSON_bytes)
next
  assume "runs enc' modules"
  from modulesToPlanJSON_total[OF this] obtain sch where
    run: "modulesToPlanJSON ro enc modules = Inr sch" ..
  note doc = modulesToPlanJSON_document[OF run]
  have rec: "\<forall>r \<in> set (filter isResource (allBlocks modules)). \<forall>attrs key v.
                 Values r = ObjectVal attrs \<longrightarrow> map_of (rev attrs) key = Some v \<longrightarrow> key \<noteq> ''count'' \<longrightarrow>
                   (\<exists>m. snapshot enc r = Some m
                      \<and> fmlookup m key = Some (RawMessage (fst (enc v))))"
  proof (intro ballI allI impI)
    fix r attrs key v
    assume r: "r \<in> set (filter isResource (allBlocks modules))"
      and a: "Values r = ObjectVal attrs" and k: "map_of (rev attrs) key = Some v"
      and c: "key \<noteq> ''count''"
    from r have mem: "r \<in> set (allBlocks modules)" and res: "isResource r" by simp_all
    from modulesToPlanJSON_succeeds(1)[OF run mem res]
    have v: "resourceValues enc r = Inr (snapshot enc r)" .
    from c have s: "\<not> skipped (Type r) key" by (simp add: skipped_def)
    from resourceValues_records[OF v a k s]
    show "\<exists>m. snapshot enc r = Some m \<and> fmlookup m key = Some (RawMessage (fst (enc v)))" .
  qed
  show "\<exists>sch. modulesToPlanJSON ro enc modules = Inr sch
           \<and> ResourceChanges sch
               = map (\<lambda>b. resourceChangesJSON b (snapshot enc b)) (filter isResource (allBlocks modules))
           \<and> plannedRoot sch
               = map (\<lambda>b. resourceJSON b (snapshot enc b)) (filter isRoot (allBlocks modules))
           \<and> childModules sch
               = [\<lparr>ChildModule.Resources =
                    map (\<lambda>b. resourceJSON b (snapshot enc b)) (filter isNested (allBlocks modules))\<rparr>]
           \<and> (\<forall>r \<in> set (filter isResource (allBlocks modules)). \<forall>attrs key v.
                 Values r = ObjectVal attrs \<longrightarrow> map_of (rev attrs) key = Some v \<longrightarrow> key \<noteq> ''count'' \<longrightarrow>
                   (\<exists>m. snapshot enc r = Some m
                      \<and> fmlookup m key = Some (RawMessage (fst (enc v)))))"
    by (rule exI[of _ sch]) (rule conjI[OF run conjI[OF doc(1) conjI[OF doc(2) conjI[OF doc(3) rec]]]])
next
  assume "loadPlanJSON ro enc json_Marshal (Inr modules) = Inr (b, Some err)"
  from loadPlanJSON_error[OF this] show "b = None" by (rule conjunct1)
next
  assume "loadPlanJSON ro enc json_Marshal (Inr modules) = Inr (b, Some err)"
  from loadPlanJSON_error[OF this]
  show "\<exists>sch e. modulesToPlanJSON ro enc modules = Inr sch \<and> json_Marshal sch = Inl e
           \<and> err = ''error handling built plan json from hcl '' @ e"
    by (rule conjunct2)
qed

theorem encoding_errors_dropped_witness:
  "truncatingEncoder (UnknownVal cty_String) = (Some '''', Some ''value is not known'')
   \<and> (\<exists>ret. marshalAttributeValues truncatingEncoder ''resource''
               (ObjectVal [(''ami'', UnknownVal cty_String)]) = Inr (Some ret)
          \<and> fmlookup ret ''ami'' = Some (RawMessage (Some '''')))
   \<and> runs totalEncoder [\<lparr>Blocks = [awsProvider, pendingInstance]\<rparr>]
   \<and> pendingInstance \<in> set (filter isResource (allBlocks [\<lparr>Blocks = [awsProvider, pendingInstance]\<rparr>]))
   \<and> Values pendingInstance = ObjectVal [(''ami'', UnknownVal cty_String)]
   \<and> (\<exists>sch m. modulesToPlanJSON ascending truncatingEncoder [\<lparr>Blocks = [awsProvider, pendingInstance]\<rparr>]
                = Inr sch
          \<and> ResourceChanges sch = [resourceChangesJSON pendingInstance (Some m)]
          \<and> plannedRoot sch = [resourceJSON pendingInstance (Some m)]
          \<and> fmlookup m ''ami'' = Some (RawMessage (Some ''''))
          \<and> sampleMarshal sch
              = Inl ''json: error calling MarshalJSON for type json.RawMessage: unexpected end of JSON input'')
   \<and> loadPlanJSON ascending truncatingEncoder sampleMarshal
         (Inr [\<lparr>Blocks = [awsProvider, pendingInstance]\<rparr>])
       = Inr (None, Some ''error handling built plan json from hcl json: error calling MarshalJSON for type json.RawMessage: unexpected end of JSON input'')"
proof -
  let ?err = "''error handling built plan json from hcl json: error calling MarshalJSON for type json.RawMessage: unexpected end of JSON input''"
  note inst = encoding_errors_dropped[of truncatingEncoder "''resource''"
      "[(''ami'', UnknownVal cty_String)]" ascending "[\<lparr>Blocks = [awsProvider, pendingInstance]\<rparr>]"
      totalEncoder sampleMarshal None ?err]
  have e: "truncatingEncoder (UnknownVal cty_String) = (Some '''', Some ''value is not known'')"
    by (simp add: truncatingEncoder_def)
  from inst obtain ret where
    ret: "marshalAttributeValues truncatingEncoder ''resource''
            (ObjectVal [(''ami'', UnknownVal cty_String)]) = Inr (Some ret)"
    and look: "\<forall>key. fmlookup ret key =
         (if skipped ''resource'' key then None
          else map_option (\<lambda>v. RawMessage (fst (truncatingEncoder v)))
                 (map_of (rev [(''ami'', UnknownVal cty_String)]) key))"
    by blast
  from look have "fmlookup ret ''ami'' = Some (RawMessage (Some ''''))"
    by (simp add: skipped_def e)
  with ret have 1: "\<exists>ret. marshalAttributeValues truncatingEncoder ''resource''
               (ObjectVal [(''ami'', UnknownVal cty_String)]) = Inr (Some ret)
          \<and> fmlookup ret ''ami'' = Some (RawMessage (Some ''''))"
    by blast
  have r: "runs totalEncoder [\<lparr>Blocks = [awsProvider, pendingInstance]\<rparr>]" by (rule pending_runs)
  have mem: "pendingInstance
      \<in> set (filter isResource (allBlocks [\<lparr>Blocks = [awsProvider, pendingInstance]\<rparr>]))"
    by (simp add: pending_blocks)
  have v: "Values pendingInstance = ObjectVal [(''ami'', UnknownVal cty_String)]"
    by (simp add: pendingInstance_def)
  have k: "map_of (rev [(''ami'', UnknownVal cty_String)]) ''ami'' = Some (UnknownVal cty_String)"
    "''ami'' \<noteq> ''count''"
    by simp_all
  from inst r obtain sch where
    run: "modulesToPlanJSON ascending truncatingEncoder [\<lparr>Blocks = [awsProvider, pendingInstance]\<rparr>]
            = Inr sch"
    and ch: "ResourceChanges sch
               = map (\<lambda>b. resourceChangesJSON b (snapshot truncatingEncoder b))
                   (filter isResource (allBlocks [\<lparr>Blocks = [awsProvider, pendingInstance]\<rparr>]))"
    and pl: "plannedRoot sch
               = map (\<lambda>b. resourceJSON b (snapshot truncatingEncoder b))
                   (filter isRoot (allBlocks [\<lparr>Blocks = [awsProvider, pendingInstance]\<rparr>]))"
    and rec: "\<forall>r \<in> set (filter isResource (allBlocks [\<lparr>Blocks = [awsProvider, pendingInstance]\<rparr>])).
               \<forall>attrs key v.
                 Values r = ObjectVal attrs \<longrightarrow> map_of (rev attrs) key = Some v \<longrightarrow> key \<noteq> ''count'' \<longrightarrow>
                   (\<exists>m. snapshot truncatingEncoder r = Some m
                      \<and> fmlookup m key = Some (RawMessage (fst (truncatingEncoder v))))"
    by blast
  from rec mem v k obtain m where m: "snapshot truncatingEncoder pendingInstance = Some m"
    and la: "fmlookup m ''ami'' = Some (RawMessage (fst (truncatingEncoder (UnknownVal cty_String))))"
    by blast
  from la have ami: "fmlookup m ''ami'' = Some (RawMessage (Some ''''))" by (simp add: e)
  from ch have ch': "ResourceChanges sch = [resourceChangesJSON pendingInstance (Some m)]"
    by (simp add: pending_blocks m)
  from pl have pl': "plannedRoot sch = [resourceJSON pendingInstance (Some m)]"
    by (simp add: pending_blocks m)
  have sm: "sampleMarshal sch
      = Inl ''json: error calling MarshalJSON for type json.RawMessage: unexpected end of JSON input''"
    by (simp add: pending_marshal[OF run] e)
  have load: "loadPlanJSON ascending truncatingEncoder sampleMarshal
         (Inr [\<lparr>Blocks = [awsProvider, pendingInstance]\<rparr>]) = Inr (None, Some ?err)"
    by (simp add: loadPlanJSON_document[OF run] sm)
  have 2: "\<exists>sch m. modulesToPlanJSON ascending truncatingEncoder [\<lparr>Blocks = [awsProvider, pendingInstance]\<rparr>]
                = Inr sch
          \<and> ResourceChanges sch = [resourceChangesJSON pendingInstance (Some m)]
          \<and> plannedRoot sch = [resourceJSON pendingInstance (Some m)]
          \<and> fmlookup m ''ami'' = Some (RawMessage (Some ''''))
          \<and> sampleMarshal sch
              = Inl ''json: error calling MarshalJSON for type json.RawMessage: unexpected end of JSON input''"
    by (rule exI[of _ sch], rule exI[of _ m])
       (rule conjI[OF run conjI[OF ch' conjI[OF pl' conjI[OF ami sm]]]])
  show ?thesis by (rule conjI[OF e conjI[OF 1 conjI[OF r conjI[OF mem conjI[OF v conjI[OF 2 load]]]]]])
qed

subsection \<open>Writing to a nil map\<close>

text \<open>
  Claim C10. A resource block whose attribute values are \<^verbatim>\<open>cty.NilVal\<close> and which has one
  child block: \<^verbatim>\<open>marshalAttributeValues\<close> returns the nil map, and \<^verbatim>\<open>marshalBlock\<close> then
  assigns the child's kind to an entry of that nil map. The conversion panics: the branch
  is reached.
\<close>

theorem nil_map_write_reached:
  "Values nullResource = NilVal \<and> Children nullResource = [ebsDevice]
   \<and> marshalAttributeValues sampleEncoder (Type nullResource) (Values nullResource) = Inr None
   \<and> marshalBlock sampleEncoder nullResource None = Inl NilMapAssignment
   \<and> modulesToPlanJSON ascending sampleEncoder [\<lparr>Blocks = [nullResource]\<rparr>] = Inl NilMapAssignment"
  by (simp add: nullResource_def ebsDevice_def marshalAttributeValues_def sampleEncoder_def
      modulesToPlanJSON_def resourceBlock_def resourceValues_def)

end
